theory Spec2Isabelle
  imports Complex_Main
begin

section \<open>Conventions of the embedding\<close>

text \<open>
  The TypeScript sources compute with JavaScript numbers. Where a property does not
  depend on rounding they are modelled as \<^typ>\<open>real\<close> with exact arithmetic; the
  round trip of the coordinate converter does depend on it and is modelled in IEEE-754
  double precision (\<open>round_double\<close> below). Objects \<open>{x, y}\<close> returned by the converter
  are pairs. Record fields carry a short prefix (\<open>dim_\<close>, \<open>cc_\<close>, ...) because a field name of
  a record is a constant of the whole theory.
\<close>

section \<open>Coordinate converter (src/utils/coordinateConverter.ts)\<close>

datatype CoordinateSystem = Pdf | Canvas | Screen

record PDFDimensions =
  dim_width :: real
  dim_height :: real

record CoordinateConverter =
  cc_pdfDimensions :: PDFDimensions
  cc_canvasDimensions :: PDFDimensions
  cc_scale :: real
  cc_dpi :: real

definition pdfToCanvas :: "CoordinateConverter \<Rightarrow> real \<Rightarrow> real \<Rightarrow> real \<times> real" where
  "pdfToCanvas c x y =
     (let scaleX = dim_width (cc_canvasDimensions c) / dim_width (cc_pdfDimensions c);
          scaleY = dim_height (cc_canvasDimensions c) / dim_height (cc_pdfDimensions c)
      in (x * scaleX, dim_height (cc_canvasDimensions c) - (y * scaleY)))"

definition canvasToPdf :: "CoordinateConverter \<Rightarrow> real \<Rightarrow> real \<Rightarrow> real \<times> real" where
  "canvasToPdf c x y =
     (let scaleX = dim_width (cc_pdfDimensions c) / dim_width (cc_canvasDimensions c);
          scaleY = dim_height (cc_pdfDimensions c) / dim_height (cc_canvasDimensions c)
      in (x * scaleX, (dim_height (cc_canvasDimensions c) - y) * scaleY))"

definition canvasToScreen :: "CoordinateConverter \<Rightarrow> real \<Rightarrow> real \<Rightarrow> real \<times> real" where
  "canvasToScreen c x y = (x * cc_scale c, y * cc_scale c)"

definition screenToCanvas :: "CoordinateConverter \<Rightarrow> real \<Rightarrow> real \<Rightarrow> real \<times> real" where
  "screenToCanvas c x y = (x / cc_scale c, y / cc_scale c)"

definition pdfToScreen :: "CoordinateConverter \<Rightarrow> real \<Rightarrow> real \<Rightarrow> real \<times> real" where
  "pdfToScreen c x y =
     (let canvas = pdfToCanvas c x y in canvasToScreen c (fst canvas) (snd canvas))"

definition screenToPdf :: "CoordinateConverter \<Rightarrow> real \<Rightarrow> real \<Rightarrow> real \<times> real" where
  "screenToPdf c x y =
     (let canvas = screenToCanvas c x y in canvasToPdf c (fst canvas) (snd canvas))"

text \<open>
  \<open>convert\<close>: equal systems return the point; otherwise the first \<open>switch\<close> goes to canvas
  coordinates (\<open>default\<close>: the point itself) and the second one leaves them
  (\<open>default\<close>: the canvas point).
\<close>

definition convert ::
  "CoordinateConverter \<Rightarrow> real \<Rightarrow> real \<Rightarrow> CoordinateSystem \<Rightarrow> CoordinateSystem \<Rightarrow> real \<times> real" where
  "convert c x y from to =
     (if from = to then (x, y)
      else
        let canvasCoords =
              (case from of
                 Pdf \<Rightarrow> pdfToCanvas c x y
               | Screen \<Rightarrow> screenToCanvas c x y
               | Canvas \<Rightarrow> (x, y))
        in (case to of
              Pdf \<Rightarrow> canvasToPdf c (fst canvasCoords) (snd canvasCoords)
            | Screen \<Rightarrow> canvasToScreen c (fst canvasCoords) (snd canvasCoords)
            | Canvas \<Rightarrow> canvasCoords))"

definition pointsToPixels :: "CoordinateConverter \<Rightarrow> real \<Rightarrow> real" where
  "pointsToPixels c points = (points * cc_dpi c) / 72"

definition pixelsToPoints :: "CoordinateConverter \<Rightarrow> real \<Rightarrow> real" where
  "pixelsToPoints c pixels = (pixels * 72) / cc_dpi c"

definition updateScale :: "CoordinateConverter \<Rightarrow> real \<Rightarrow> CoordinateConverter" where
  "updateScale c newScale = c\<lparr>cc_scale := newScale\<rparr>"

text \<open>The converter of the examples: a US Letter page shown on an 800 x 1000 canvas at zoom 2.\<close>

definition letter_converter :: CoordinateConverter where
  "letter_converter =
     \<lparr>cc_pdfDimensions = \<lparr>dim_width = 612, dim_height = 792\<rparr>,
      cc_canvasDimensions = \<lparr>dim_width = 800, dim_height = 1000\<rparr>,
      cc_scale = 2, cc_dpi = 72\<rparr>"

section \<open>Double-precision arithmetic of the converter\<close>

text \<open>
  A JavaScript number is an IEEE-754 binary64 value. \<open>round_double z\<close> is the double
  nearest to the real \<open>z\<close> (ties to the even significand): in the binade
  \<open>2 ^ e \<le> \<bar>z\<bar> < 2 ^ (e + 1)\<close> the doubles are the integer multiples of \<open>2 ^ (e - 52)\<close>,
  and below \<open>2 ^ -1022\<close> (the subnormal range) they are the multiples of \<open>2 ^ -1074\<close>. \<open>to_double z\<close> is \<open>None\<close> when the
  rounded value is not finite (\<open>Infinity\<close>; \<open>NaN\<close> is \<open>None\<close> as well), and \<open>None\<close> is
  propagated by multiplication and subtraction as JavaScript propagates a non-finite
  operand. \<open>ddiv\<close>, \<open>dmul\<close> and \<open>dsub\<close> are the operators \<open>/\<close>, \<open>*\<close> and \<open>-\<close> of the source,
  each rounding its exact result once; the dimensions of a converter are finite numbers.
\<close>

definition rne :: "real \<Rightarrow> int" where
  "rne v =
     (let f = \<lfloor>v\<rfloor>; r = v - of_int f
      in if r < 1 / 2 then f else if r > 1 / 2 then f + 1 else if even f then f else f + 1)"

definition binade :: "real \<Rightarrow> int" where
  "binade z = max \<lfloor>log 2 \<bar>z\<bar>\<rfloor> (- 1022)"

definition round_double :: "real \<Rightarrow> real" where
  "round_double z =
     (if z = 0 then 0
      else of_int (rne (z / 2 powi (binade z - 52))) * 2 powi (binade z - 52))"

definition to_double :: "real \<Rightarrow> real option" where
  "to_double z = (let r = round_double z in if \<bar>r\<bar> < 2 ^ 1024 then Some r else None)"

definition ddiv :: "real \<Rightarrow> real \<Rightarrow> real option" where
  "ddiv a b = (if b = 0 then None else to_double (a / b))"

definition dmul :: "real option \<Rightarrow> real option \<Rightarrow> real option" where
  "dmul a b = (case (a, b) of (Some x, Some y) \<Rightarrow> to_double (x * y) | _ \<Rightarrow> None)"

definition dsub :: "real option \<Rightarrow> real option \<Rightarrow> real option" where
  "dsub a b = (case (a, b) of (Some x, Some y) \<Rightarrow> to_double (x - y) | _ \<Rightarrow> None)"

text \<open>
  \<open>pdfToCanvas\<close> and \<open>canvasToPdf\<close> (coordinateConverter.ts lines 37-58) with every
  operation rounded as the source performs it.
\<close>

definition pdfToCanvas_double ::
  "CoordinateConverter \<Rightarrow> real option \<Rightarrow> real option \<Rightarrow> real option \<times> real option" where
  "pdfToCanvas_double c x y =
     (let scaleX = ddiv (dim_width (cc_canvasDimensions c)) (dim_width (cc_pdfDimensions c));
          scaleY = ddiv (dim_height (cc_canvasDimensions c)) (dim_height (cc_pdfDimensions c))
      in (dmul x scaleX, dsub (Some (dim_height (cc_canvasDimensions c))) (dmul y scaleY)))"

definition canvasToPdf_double ::
  "CoordinateConverter \<Rightarrow> real option \<Rightarrow> real option \<Rightarrow> real option \<times> real option" where
  "canvasToPdf_double c x y =
     (let scaleX = ddiv (dim_width (cc_pdfDimensions c)) (dim_width (cc_canvasDimensions c));
          scaleY = ddiv (dim_height (cc_pdfDimensions c)) (dim_height (cc_canvasDimensions c))
      in (dmul x scaleX, dmul (dsub (Some (dim_height (cc_canvasDimensions c))) y) scaleY))"

text \<open>A document of \<open>10 ^ 12\<close> by \<open>10 ^ 12\<close> points shown on a canvas of 3 by 3 pixels.\<close>

definition huge_converter :: CoordinateConverter where
  "huge_converter =
     \<lparr>cc_pdfDimensions = \<lparr>dim_width = 10 ^ 12, dim_height = 10 ^ 12\<rparr>,
      cc_canvasDimensions = \<lparr>dim_width = 3, dim_height = 3\<rparr>,
      cc_scale = 1, cc_dpi = 72\<rparr>"

section \<open>Strings\<close>

text \<open>
  A JavaScript string is modelled as a \<^typ>\<open>string\<close> holding its UTF-8 encoding, one
  \<^typ>\<open>char\<close> a byte, as the source files store their literals. \<open>join_sp\<close> is
  \<open>Array.prototype.join(' ')\<close> and \<open>split_sp\<close> is \<open>String.prototype.split(' ')\<close> (the empty
  string splits into one empty word); the byte \<open>0x20\<close> occurs in UTF-8 only as the space.
\<close>

fun join_sp :: "string list \<Rightarrow> string" where
  "join_sp [] = []"
| "join_sp [w] = w"
| "join_sp (w # v # ws) = w @ CHR '' '' # join_sp (v # ws)"

fun split_sp :: "string \<Rightarrow> string list" where
  "split_sp [] = [[]]"
| "split_sp (c # cs) =
     (if c = CHR '' '' then [] # split_sp cs
      else (case split_sp cs of [] \<Rightarrow> [[c]] | w # ws \<Rightarrow> (c # w) # ws))"

text \<open>
  \<open>String.prototype.trim\<close> removes from both ends the code points of the productions
  WhiteSpace and LineTerminator of ECMAScript: TAB, LF, VT, FF, CR, SP, U+00A0, U+1680,
  U+2000 to U+200A, U+2028, U+2029, U+202F, U+205F, U+3000 and U+FEFF. \<open>white_space\<close>
  lists their UTF-8 encodings. \<open>space_match ws s\<close> is the number of bytes of the member of
  \<open>ws\<close> that \<open>s\<close> starts with, and \<open>strip_spaces ws\<close> removes such members from the start
  for as long as there is one (a match at \<open>c # cs\<close> has \<open>n \<ge> 1\<close> bytes, the first of which
  is \<open>c\<close>). At the end of the string the encodings are matched backwards: a UTF-8 string
  that ends with the bytes of a code point ends with that code point.
\<close>

definition white_space :: "string list" where
  "white_space =
     [[CHR 0x09], [CHR 0x0A], [CHR 0x0B], [CHR 0x0C], [CHR 0x0D], [CHR 0x20],
      [CHR 0xC2, CHR 0xA0],
      [CHR 0xE1, CHR 0x9A, CHR 0x80],
      [CHR 0xE2, CHR 0x80, CHR 0x80], [CHR 0xE2, CHR 0x80, CHR 0x81],
      [CHR 0xE2, CHR 0x80, CHR 0x82], [CHR 0xE2, CHR 0x80, CHR 0x83],
      [CHR 0xE2, CHR 0x80, CHR 0x84], [CHR 0xE2, CHR 0x80, CHR 0x85],
      [CHR 0xE2, CHR 0x80, CHR 0x86], [CHR 0xE2, CHR 0x80, CHR 0x87],
      [CHR 0xE2, CHR 0x80, CHR 0x88], [CHR 0xE2, CHR 0x80, CHR 0x89],
      [CHR 0xE2, CHR 0x80, CHR 0x8A],
      [CHR 0xE2, CHR 0x80, CHR 0xA8], [CHR 0xE2, CHR 0x80, CHR 0xA9],
      [CHR 0xE2, CHR 0x80, CHR 0xAF],
      [CHR 0xE2, CHR 0x81, CHR 0x9F],
      [CHR 0xE3, CHR 0x80, CHR 0x80],
      [CHR 0xEF, CHR 0xBB, CHR 0xBF]]"

definition space_match :: "string list \<Rightarrow> string \<Rightarrow> nat option" where
  "space_match ws s = map_option length (find (\<lambda>w. w \<noteq> [] \<and> take (length w) s = w) ws)"

function strip_spaces :: "string list \<Rightarrow> string \<Rightarrow> string" where
  "strip_spaces ws [] = []"
| "strip_spaces ws (c # cs) =
     (case space_match ws (c # cs) of
        Some n \<Rightarrow> strip_spaces ws (drop (n - 1) cs)
      | None \<Rightarrow> c # cs)"
  by pat_completeness auto
termination
  by (relation "measure (\<lambda>(ws, s). length s)") auto

definition trimStart :: "string \<Rightarrow> string" where
  "trimStart s = strip_spaces white_space s"

definition trimEnd :: "string \<Rightarrow> string" where
  "trimEnd s = rev (strip_spaces (map rev white_space) (rev s))"

definition js_trim :: "string \<Rightarrow> string" where
  "js_trim s = trimEnd (trimStart s)"

section \<open>Text extraction and line grouping (src/utils/pdfParser.ts)\<close>

record ExtractedFieldData =
  ef_text :: string
  ef_x :: real
  ef_y :: real
  ef_width :: real
  ef_height :: real
  ef_fontName :: string
  ef_fontSize :: real

text \<open>
  A text item of pdf.js: its string, the transform \<open>[a, b, c, d, e, f]\<close>, the metrics of
  the glyph run and the font name (\<open>None\<close> when the property is absent). The items of
  a page that have no \<open>str\<close> property are \<open>MarkedContent\<close>.
\<close>

record Transform =
  tr_a :: real
  tr_b :: real
  tr_c :: real
  tr_d :: real
  tr_e :: real
  tr_f :: real

record TextItem =
  ti_str :: string
  ti_transform :: Transform
  ti_width :: real
  ti_height :: real
  ti_fontName :: "string option"

datatype ContentItem = TextContent TextItem | MarkedContent

record Page =
  pg_viewport :: PDFDimensions
  pg_items :: "ContentItem list"

text \<open>A document gives its pages by number; \<open>getPage\<close> rejects where it is \<open>None\<close>.\<close>

type_synonym PDFDocument = "nat \<Rightarrow> Page option"

text \<open>The body of the \<open>forEach\<close> callback of \<open>extractTextWithPositions\<close>.\<close>

definition extract_item :: "real \<Rightarrow> ContentItem \<Rightarrow> ExtractedFieldData list \<Rightarrow> ExtractedFieldData list" where
  "extract_item viewportHeight item extractedFields =
     (case item of
        MarkedContent \<Rightarrow> extractedFields
      | TextContent it \<Rightarrow>
          if js_trim (ti_str it) \<noteq> [] then
            let transform = ti_transform it;
                x = tr_e transform;
                y = viewportHeight - tr_f transform;
                fontSize = \<bar>tr_d transform\<bar>;
                width = ti_width it;
                height = ti_height it
            in extractedFields @
                 [\<lparr>ef_text = ti_str it, ef_x = x, ef_y = y, ef_width = width, ef_height = height,
                   ef_fontName = (case ti_fontName it of
                                    None \<Rightarrow> ''Unknown''
                                  | Some n \<Rightarrow> if n = [] then ''Unknown'' else n),
                   ef_fontSize = fontSize\<rparr>]
          else extractedFields)"

definition extractTextWithPositions :: "PDFDocument \<Rightarrow> nat \<Rightarrow> string + ExtractedFieldData list" where
  "extractTextWithPositions pdf pageNumber =
     (case pdf pageNumber of
        None \<Rightarrow> Inl ''Failed to extract text from PDF''
      | Some page \<Rightarrow>
          Inr (fold (extract_item (dim_height (pg_viewport page))) (pg_items page) []))"

text \<open>
  \<open>groupNearbyText\<close>. The state of the outer \<open>forEach\<close> is the list \<open>grouped\<close> and the set
  \<open>processed\<close> of indices; the inner \<open>for\<close> loop runs over the indices after \<open>index\<close> and
  carries \<open>group\<close> and \<open>processed\<close>. \<open>currentY\<close> is the anchor item's \<open>y\<close> and is never
  updated.
\<close>

definition group_inner ::
  "ExtractedFieldData list \<Rightarrow> real \<Rightarrow> real \<Rightarrow> nat \<Rightarrow>
   ExtractedFieldData list \<times> nat set \<Rightarrow> ExtractedFieldData list \<times> nat set" where
  "group_inner extractedData currentY maxDistance i st =
     (case st of (grp, processed) \<Rightarrow>
        if i \<in> processed then (grp, processed)
        else
          let nextItem = extractedData ! i;
              yDiff = \<bar>ef_y nextItem - currentY\<bar>
          in if yDiff \<le> maxDistance then (grp @ [nextItem], insert i processed)
             else (grp, processed))"

text \<open>
  The merge of a group. \<open>Math.min(...)\<close> and \<open>Math.max(...)\<close> are folds from the first
  element; the group is never empty (it starts with the anchor item), and the guard
  \<open>group.length > 0\<close> is the \<open>case\<close>.
\<close>

definition merge_group :: "ExtractedFieldData \<Rightarrow> ExtractedFieldData list \<Rightarrow> ExtractedFieldData option" where
  "merge_group item grp =
     (case grp of
        [] \<Rightarrow> None
      | g # gs \<Rightarrow>
          let minX = fold min (map ef_x gs) (ef_x g);
              maxX = fold max (map (\<lambda>g. ef_x g + ef_width g) gs) (ef_x g + ef_width g);
              avgY = fold (\<lambda>g sum. sum + ef_y g) grp 0 / real (length grp)
          in Some \<lparr>ef_text = join_sp (map ef_text grp), ef_x = minX, ef_y = avgY,
                   ef_width = maxX - minX, ef_height = ef_height item,
                   ef_fontName = ef_fontName item, ef_fontSize = ef_fontSize item\<rparr>)"

definition group_outer ::
  "ExtractedFieldData list \<Rightarrow> real \<Rightarrow> nat \<Rightarrow>
   ExtractedFieldData list \<times> nat set \<Rightarrow> ExtractedFieldData list \<times> nat set" where
  "group_outer extractedData maxDistance index st =
     (case st of (grouped, processed) \<Rightarrow>
        if index \<in> processed then (grouped, processed)
        else
          let item = extractedData ! index;
              currentY = ef_y item;
              (grp, processed') =
                 fold (group_inner extractedData currentY maxDistance)
                      [index + 1 ..< length extractedData] ([item], processed)
          in (case merge_group item grp of
                None \<Rightarrow> (grouped, processed')
              | Some m \<Rightarrow> (grouped @ [m], insert index processed')))"

definition groupNearbyText :: "ExtractedFieldData list \<Rightarrow> real \<Rightarrow> ExtractedFieldData list" where
  "groupNearbyText extractedData maxDistance =
     fst (fold (group_outer extractedData maxDistance) [0 ..< length extractedData] ([], {}))"

text \<open>
  Two views of the extractor for the statements below. \<open>shown_items\<close> are the text items
  that pass the guard \<open>'str' in item && item.str.trim()\<close>, in page order;
  \<open>canvas_run\<close> is the run pushed for such an item on a page of the given height.
\<close>

fun shown_items :: "ContentItem list \<Rightarrow> TextItem list" where
  "shown_items [] = []"
| "shown_items (MarkedContent # items) = shown_items items"
| "shown_items (TextContent it # items) =
     (if js_trim (ti_str it) \<noteq> [] then it # shown_items items
      else shown_items items)"

definition canvas_run :: "real \<Rightarrow> TextItem \<Rightarrow> ExtractedFieldData" where
  "canvas_run viewportHeight it =
     \<lparr>ef_text = ti_str it,
      ef_x = tr_e (ti_transform it),
      ef_y = viewportHeight - tr_f (ti_transform it),
      ef_width = ti_width it,
      ef_height = ti_height it,
      ef_fontName = (if ti_fontName it = None \<or> ti_fontName it = Some [] then ''Unknown''
                     else the (ti_fontName it)),
      ef_fontSize = \<bar>tr_d (ti_transform it)\<bar>\<rparr>"

text \<open>
  A one-page document of height 792 with one text item drawn at \<open>(40, 700)\<close> in the
  page's own coordinates, an item of two spaces, an item of a no-break space, an em
  space and a space (U+00A0, U+2003, U+0020) and a marked-content item; \<open>label_run\<close> is
  the run the extractor returns for it.
\<close>

definition label_item :: TextItem where
  "label_item =
     \<lparr>ti_str = ''Full Name'',
      ti_transform = \<lparr>tr_a = 12, tr_b = 0, tr_c = 0, tr_d = - 12, tr_e = 40, tr_f = 700\<rparr>,
      ti_width = 54, ti_height = 12, ti_fontName = Some ''g_d0_f1''\<rparr>"

definition blank_item :: TextItem where
  "blank_item =
     \<lparr>ti_str = ''  '',
      ti_transform = \<lparr>tr_a = 12, tr_b = 0, tr_c = 0, tr_d = 12, tr_e = 94, tr_f = 700\<rparr>,
      ti_width = 6, ti_height = 12, ti_fontName = None\<rparr>"

definition nbsp_item :: TextItem where
  "nbsp_item =
     \<lparr>ti_str = [CHR 0xC2, CHR 0xA0, CHR 0xE2, CHR 0x80, CHR 0x83, CHR 0x20],
      ti_transform = \<lparr>tr_a = 12, tr_b = 0, tr_c = 0, tr_d = 12, tr_e = 100, tr_f = 700\<rparr>,
      ti_width = 12, ti_height = 12, ti_fontName = None\<rparr>"

definition label_doc :: PDFDocument where
  "label_doc n =
     (if n = 1 then
        Some \<lparr>pg_viewport = \<lparr>dim_width = 612, dim_height = 792\<rparr>,
              pg_items = [MarkedContent, TextContent label_item, TextContent blank_item,
                          TextContent nbsp_item]\<rparr>
      else None)"

definition label_run :: ExtractedFieldData where
  "label_run =
     \<lparr>ef_text = ''Full Name'', ef_x = 40, ef_y = 92, ef_width = 54, ef_height = 12,
      ef_fontName = ''g_d0_f1'', ef_fontSize = 12\<rparr>"

text \<open>
  The functional reading of \<open>groupNearbyText\<close> used in the proofs: the first run is the
  anchor of a line, the later runs within the distance of the anchor join it, and the
  others are grouped in turn. \<open>remaining\<close> lists the runs from index \<open>k\<close> on whose index
  is not in \<open>processed\<close>.
\<close>

definition y_near :: "real \<Rightarrow> ExtractedFieldData \<Rightarrow> ExtractedFieldData \<Rightarrow> bool" where
  "y_near d item r = (\<bar>ef_y r - ef_y item\<bar> \<le> d)"

fun line_groups :: "real \<Rightarrow> ExtractedFieldData list \<Rightarrow> ExtractedFieldData list" where
  "line_groups d [] = []"
| "line_groups d (item # rest) =
     (case merge_group item (item # filter (y_near d item) rest) of
        None \<Rightarrow> []
      | Some m \<Rightarrow> m # line_groups d (filter (\<lambda>r. \<not> y_near d item r) rest))"

definition remaining :: "ExtractedFieldData list \<Rightarrow> nat \<Rightarrow> nat set \<Rightarrow> ExtractedFieldData list" where
  "remaining xs k P = map ((!) xs) (filter (\<lambda>i. i \<notin> P) [k ..< length xs])"

text \<open>
  The merged line as the specification words it: the runs ordered left to right by
  \<open>x\<close>, their texts joined with one space, and the box
  \<open>(min x, max (x + width) - min x, average y, maximum height)\<close>. \<open>line_box\<close> reads the
  same five components off a run returned by the code.
\<close>

definition spec_merged_line :: "ExtractedFieldData list \<Rightarrow> string \<times> real \<times> real \<times> real \<times> real" where
  "spec_merged_line runs =
     (join_sp (map ef_text (sort_key ef_x runs)),
      Min (ef_x ` set runs),
      Max ((\<lambda>r. ef_x r + ef_width r) ` set runs) - Min (ef_x ` set runs),
      sum_list (map ef_y runs) / real (length runs),
      Max (ef_height ` set runs))"

definition line_box :: "ExtractedFieldData \<Rightarrow> string \<times> real \<times> real \<times> real \<times> real" where
  "line_box r = (ef_text r, ef_x r, ef_width r, ef_y r, ef_height r)"

text \<open>
  Scenario A with the runs in the other extraction order: the value first, at
  \<open>(120, 702)\<close>, then its label at \<open>(40, 700)\<close>. \<open>run_merged\<close> is what the code returns.
\<close>

definition run_doe :: ExtractedFieldData where
  "run_doe = \<lparr>ef_text = ''Doe, John'', ef_x = 120, ef_y = 702, ef_width = 50, ef_height = 10,
               ef_fontName = ''F1'', ef_fontSize = 10\<rparr>"

definition run_name :: ExtractedFieldData where
  "run_name = \<lparr>ef_text = ''Full Name'', ef_x = 40, ef_y = 700, ef_width = 60, ef_height = 14,
                ef_fontName = ''F2'', ef_fontSize = 14\<rparr>"

definition run_merged :: ExtractedFieldData where
  "run_merged = \<lparr>ef_text = ''Doe, John Full Name'', ef_x = 40, ef_y = 701, ef_width = 130,
                  ef_height = 10, ef_fontName = ''F1'', ef_fontSize = 10\<rparr>"

section \<open>Text wrapping (src/utils/fontLoader.ts)\<close>

text \<open>
  The 2D context of a canvas measures a string under the font set by
  \<open>context.font = `${fontSize}px ${fontFamily}`\<close>; the font string is a function of the
  size and the family, so a context is modelled by its width function of size, family
  and text. \<open>getContext('2d')\<close> may return \<open>null\<close>: the context is optional.
\<close>

type_synonym MeasureContext = "real \<Rightarrow> string \<Rightarrow> string \<Rightarrow> real"

text \<open>One iteration of the loop \<open>for (const word of words)\<close> on \<open>(lines, currentLine)\<close>.\<close>

definition wrap_step :: "(string \<Rightarrow> real) \<Rightarrow> real \<Rightarrow> string \<Rightarrow> string list \<times> string \<Rightarrow> string list \<times> string" where
  "wrap_step measureText maxWidth word st =
     (case st of (lines, currentLine) \<Rightarrow>
        let testLine = (if currentLine \<noteq> [] then currentLine @ CHR '' '' # word else word);
            width = measureText testLine
        in if width > maxWidth \<and> currentLine \<noteq> [] then (lines @ [currentLine], word)
           else (lines, testLine))"

definition wrapText :: "MeasureContext option \<Rightarrow> string \<Rightarrow> real \<Rightarrow> real \<Rightarrow> string \<Rightarrow> string list" where
  "wrapText context text maxWidth fontSize fontFamily =
     (case context of
        None \<Rightarrow> [text]
      | Some ctx \<Rightarrow>
          let words = split_sp text;
              (lines, currentLine) = fold (wrap_step (ctx fontSize fontFamily) maxWidth) words ([], [])
          in if currentLine \<noteq> [] then lines @ [currentLine] else lines)"

text \<open>
  The words of a string in the everyday sense, the non-empty pieces between spaces;
  \<open>wrap_out\<close> is the final \<open>if (currentLine) lines.push(currentLine)\<close>; \<open>mono_ctx\<close> is a
  fixed-pitch metrics backend for the examples.
\<close>

definition ne_words :: "string \<Rightarrow> string list" where
  "ne_words s = filter (\<lambda>w. w \<noteq> []) (split_sp s)"

definition mono_ctx :: MeasureContext where
  "mono_ctx fontSize fontFamily s = fontSize * real (length s)"

definition wrap_out :: "string list \<times> string \<Rightarrow> string list" where
  "wrap_out st = (case st of (lines, currentLine) \<Rightarrow>
                    if currentLine \<noteq> [] then lines @ [currentLine] else lines)"

section \<open>Rendering (src/hooks/usePDFGeneration.ts)\<close>

datatype FieldType = TextField | NumberField | DateField | Dropdown | Checkbox | Textarea

datatype TextAlignment = AlignLeft | AlignCenter | AlignRight

text \<open>
  The members of \<open>Field\<close> and \<open>Template\<close> (src/types/index.ts) that rendering and
  template validation read. Optional members are options; \<open>fontWeight\<close> is one of the
  string literals of the \<open>FontWeight\<close> type.
\<close>

record Field =
  f_id :: string
  f_label :: string
  f_type :: FieldType
  f_x :: real
  f_y :: real
  f_fontSize :: real
  f_fontFamily :: string
  f_fontWeight :: string
  f_color :: string
  f_maxWidth :: "real option"
  f_alignment :: TextAlignment
  f_multiline :: "bool option"

record Template =
  t_id :: string
  t_templateName :: string
  t_pdfDimensions :: PDFDimensions
  t_backgroundImage :: string
  t_fields :: "Field list"
  t_createdAt :: string
  t_updatedAt :: string
  t_version :: string

text \<open>
  A bound value is a string, a number or a boolean; \<open>null\<close> is tested by the code, and a
  field id without an entry reads \<open>undefined\<close>, the \<open>None\<close> of the map.
\<close>

datatype FormValue = VString string | VNumber real | VBoolean bool | VNull

type_synonym FormData = "string \<Rightarrow> FormValue option"

datatype ExportFormat = FormatPdf | FormatPng | FormatJpg

record ExportOptions =
  o_format :: "ExportFormat option"
  o_quality :: "real option"
  o_filename :: "string option"
  o_includeBackground :: "bool option"

text \<open>
  The jsPDF document is modelled by its constructor arguments and the calls applied to
  it so far. \<open>DrawText\<close> is \<open>pdf.text\<close>, with the options \<open>{align, maxWidth}\<close> when given.
\<close>

datatype PdfOp =
    AddImage string real real real real
  | SetFont string string
  | SetFontSize real
  | SetTextColor string
  | DrawText string real real "(TextAlignment \<times> real) option"

record JsPDF =
  pdf_landscape :: bool
  pdf_format :: "real \<times> real"
  pdf_calls :: "PdfOp list"

datatype Thrown = Error string | NonError

datatype Blob = PdfBlob JsPDF | ImageBlob JsPDF string real

text \<open>
  What the code calls outside the repository: whether \<open>new jsPDF\<close> throws, whether a call
  on the document throws (given the document it is applied to), the canvas context used
  by \<open>wrapText\<close>, \<open>String(n)\<close> for a number, whether \<open>pdf.output('blob')\<close> throws and
  whether the conversion to an image (\<open>pdfToCanvas\<close>, then \<open>canvasToBlob\<close> with the mime
  type and the quality ratio) rejects.
\<close>

record Backend =
  b_new :: "bool \<Rightarrow> real \<Rightarrow> real \<Rightarrow> Thrown option"
  b_throws :: "JsPDF \<Rightarrow> PdfOp \<Rightarrow> Thrown option"
  b_context :: "MeasureContext option"
  b_numberToString :: "real \<Rightarrow> string"
  b_output :: "JsPDF \<Rightarrow> Thrown option"
  b_image :: "JsPDF \<Rightarrow> string \<Rightarrow> real \<Rightarrow> Thrown option"

text \<open>
  What a call of \<open>generatePDF\<close> leaves: the value the promise resolves to (\<open>None\<close> for
  \<open>null\<close>), the values passed to \<open>setProgress\<close> in order, the last \<open>setError\<close> and
  \<open>setIsGenerating\<close>, and the document as it was when the call settled (\<open>None\<close> when the
  constructor threw).
\<close>

record Outcome =
  out_blob :: "Blob option"
  out_progress :: "real list"
  out_error :: "string option"
  out_isGenerating :: bool
  out_pdf :: "JsPDF option"

definition px_to_mm :: real where
  "px_to_mm = 264583 / 1000000"

text \<open>
  The string literal drawn for a checked checkbox (line 104), as the source file stores
  it in UTF-8: the seven bytes \<open>C3 A2 C5 93 E2 80 9C\<close>, that is the three characters
  U+00E2, U+0153 and U+201C (the bytes of the check mark U+2713 read as Windows-1252
  and encoded again).
\<close>

definition check_mark :: string where
  "check_mark = [CHR 0xC3, CHR 0xA2, CHR 0xC5, CHR 0x93, CHR 0xE2, CHR 0x80, CHR 0x9C]"

definition String :: "Backend \<Rightarrow> FormValue \<Rightarrow> string" where
  "String b v =
     (case v of
        VString s \<Rightarrow> s
      | VNumber n \<Rightarrow> b_numberToString b n
      | VBoolean t \<Rightarrow> if t then ''true'' else ''false''
      | VNull \<Rightarrow> ''null'')"

definition errorMessage :: "Thrown \<Rightarrow> string" where
  "errorMessage err = (case err of Error m \<Rightarrow> m | NonError \<Rightarrow> ''Unknown error'')"

text \<open>
  Calls applied in order to the document; the first call that throws ends the sequence
  and leaves the document as it was before that call.
\<close>

fun run_ops :: "Backend \<Rightarrow> PdfOp list \<Rightarrow> JsPDF \<Rightarrow> Thrown option \<times> JsPDF" where
  "run_ops b [] pdf = (None, pdf)"
| "run_ops b (c # cs) pdf =
     (case b_throws b pdf c of
        Some e \<Rightarrow> (Some e, pdf)
      | None \<Rightarrow> run_ops b cs (pdf\<lparr>pdf_calls := pdf_calls pdf @ [c]\<rparr>))"

text \<open>
  The jsPDF calls that the body of \<open>template.fields.forEach\<close> issues for a field whose
  value is filled, in order. The body reads no result of a call, so the calls are a
  function of the field and its value: font, size and colour first, then the drawing
  calls of the branch taken.
\<close>

definition field_calls :: "Backend \<Rightarrow> CoordinateConverter \<Rightarrow> real \<Rightarrow> Field \<Rightarrow> FormValue \<Rightarrow> PdfOp list" where
  "field_calls b converter pdfWidth field v =
     (let pdfCoords = canvasToPdf converter (f_x field) (f_y field);
          xMm = fst pdfCoords * px_to_mm;
          yMm = snd pdfCoords * px_to_mm;
          maxWidthMm = (case f_maxWidth field of
                          None \<Rightarrow> pdfWidth - xMm
                        | Some w \<Rightarrow> if w \<noteq> 0 then w * px_to_mm else pdfWidth - xMm);
          valueStr = String b v
      in [SetFont (if f_fontFamily field \<noteq> [] then f_fontFamily field else ''helvetica'')
                  (f_fontWeight field),
          SetFontSize (f_fontSize field),
          SetTextColor (if f_color field \<noteq> [] then f_color field else ''#000000'')]
         @ (if f_type field = Checkbox then
              (let isChecked = (v = VBoolean True \<or> v = VString ''true'' \<or> v = VString ''1'')
               in if isChecked then [SetFontSize (f_fontSize field), DrawText check_mark xMm yMm None]
                  else [])
            else if f_maxWidth field \<noteq> None \<and> f_maxWidth field \<noteq> Some 0
                    \<and> f_multiline field = Some True then
              (let lines = wrapText (b_context b) valueStr (the (f_maxWidth field))
                             (f_fontSize field) (f_fontFamily field);
                   lineHeight = f_fontSize field * (12 / 10) * px_to_mm
               in map (\<lambda>(i, line). DrawText line xMm (yMm + real i * lineHeight)
                                      (Some (f_alignment field, maxWidthMm)))
                      (enumerate 0 lines))
            else [DrawText valueStr xMm yMm (Some (f_alignment field, maxWidthMm))]))"

text \<open>
  The callback of \<open>template.fields.forEach\<close> on the document and the progress reports:
  a field whose value is \<open>undefined\<close>, \<open>null\<close> or \<open>''\<close> returns at once; otherwise the calls
  are applied and, if none throws, the progress is reported.
\<close>

definition render_field ::
  "Backend \<Rightarrow> CoordinateConverter \<Rightarrow> real \<Rightarrow> FormData \<Rightarrow> nat \<Rightarrow> Field \<Rightarrow> nat \<Rightarrow>
   JsPDF \<times> real list \<Rightarrow> Thrown option \<times> JsPDF \<times> real list" where
  "render_field b converter pdfWidth formData n field index st =
     (case st of (pdf, reports) \<Rightarrow>
        let v = formData (f_id field)
        in if v = None \<or> v = Some VNull \<or> v = Some (VString []) then (None, pdf, reports)
           else (case run_ops b (field_calls b converter pdfWidth field (the v)) pdf of
                   (Some e, pdf') \<Rightarrow> (Some e, pdf', reports)
                 | (None, pdf') \<Rightarrow> (None, pdf', reports @ [40 + (real index / real n) * 50])))"

text \<open>\<open>forEach\<close>: the callback on each field with its index; an exception leaves the loop.\<close>

fun render_fields ::
  "Backend \<Rightarrow> CoordinateConverter \<Rightarrow> real \<Rightarrow> FormData \<Rightarrow> nat \<Rightarrow> Field list \<Rightarrow> nat \<Rightarrow>
   JsPDF \<times> real list \<Rightarrow> Thrown option \<times> JsPDF \<times> real list" where
  "render_fields b converter pdfWidth formData n [] index st = (None, st)"
| "render_fields b converter pdfWidth formData n (field # rest) index st =
     (case render_field b converter pdfWidth formData n field index st of
        (Some e, st') \<Rightarrow> (Some e, st')
      | (None, st') \<Rightarrow> render_fields b converter pdfWidth formData n rest (Suc index) st')"

text \<open>
  The parts of \<open>generatePDF\<close> before the loop: the page size in mm, the converter (both
  dimension pairs are the template's), the new document, and the background image,
  whose failure is caught and only logged.
\<close>

definition mm_width :: "Template \<Rightarrow> real" where
  "mm_width template = dim_width (t_pdfDimensions template) * px_to_mm"

definition mm_height :: "Template \<Rightarrow> real" where
  "mm_height template = dim_height (t_pdfDimensions template) * px_to_mm"

definition template_converter :: "Template \<Rightarrow> CoordinateConverter" where
  "template_converter template =
     \<lparr>cc_pdfDimensions = t_pdfDimensions template,
      cc_canvasDimensions = t_pdfDimensions template, cc_scale = 1, cc_dpi = 72\<rparr>"

definition new_pdf :: "Template \<Rightarrow> JsPDF" where
  "new_pdf template =
     \<lparr>pdf_landscape = (mm_width template > mm_height template),
      pdf_format = (mm_width template, mm_height template), pdf_calls = []\<rparr>"

definition with_background :: "Backend \<Rightarrow> Template \<Rightarrow> ExportOptions \<Rightarrow> JsPDF" where
  "with_background b template options =
     (let includeBackground = (case o_includeBackground options of None \<Rightarrow> True | Some v \<Rightarrow> v)
      in if includeBackground \<and> t_backgroundImage template \<noteq> [] then
           snd (run_ops b [AddImage (t_backgroundImage template) 0 0
                             (mm_width template) (mm_height template)] (new_pdf template))
         else new_pdf template)"

definition failed :: "Thrown \<Rightarrow> real list \<Rightarrow> JsPDF option \<Rightarrow> Outcome" where
  "failed err reports pdf =
     \<lparr>out_blob = None, out_progress = reports,
      out_error = Some (''Failed to generate PDF: '' @ errorMessage err),
      out_isGenerating = False, out_pdf = pdf\<rparr>"

definition generatePDF :: "Backend \<Rightarrow> Template \<Rightarrow> FormData \<Rightarrow> ExportOptions \<Rightarrow> Outcome" where
  "generatePDF b template formData options =
     (let format = (case o_format options of None \<Rightarrow> FormatPdf | Some f \<Rightarrow> f);
          quality = (case o_quality options of None \<Rightarrow> 95 | Some q \<Rightarrow> q)
      in case b_new b (mm_width template > mm_height template)
                (mm_width template) (mm_height template) of
           Some e \<Rightarrow> failed e [0] None
         | None \<Rightarrow>
             (case render_fields b (template_converter template) (mm_width template) formData
                     (length (t_fields template)) (t_fields template) 0
                     (with_background b template options, [0, 20, 40]) of
                (Some e, pdf, reports) \<Rightarrow> failed e reports (Some pdf)
              | (None, pdf, reports) \<Rightarrow>
                  if format = FormatPdf then
                    (case b_output b pdf of
                       Some e \<Rightarrow> failed e (reports @ [95]) (Some pdf)
                     | None \<Rightarrow>
                         \<lparr>out_blob = Some (PdfBlob pdf), out_progress = reports @ [95, 100],
                          out_error = None, out_isGenerating = False, out_pdf = Some pdf\<rparr>)
                  else
                    (let mimeType = (if format = FormatPng then ''image/png'' else ''image/jpeg'')
                     in case b_image b pdf mimeType (quality / 100) of
                          Some e \<Rightarrow> failed e (reports @ [95]) (Some pdf)
                        | None \<Rightarrow>
                            \<lparr>out_blob = Some (ImageBlob pdf mimeType (quality / 100)),
                             out_progress = reports @ [95, 100],
                             out_error = None, out_isGenerating = False, out_pdf = Some pdf\<rparr>)))"

text \<open>
  \<open>is_draw\<close> singles out the \<open>pdf.text\<close> calls. The examples: a backend on which nothing
  throws, one on which drawing the text \<open>Ada\<close> throws, and a template with a text field and
  a checkbox, both filled (no bound value is a number, so \<open>String(n)\<close> is never asked).
\<close>

definition is_draw :: "PdfOp \<Rightarrow> bool" where
  "is_draw c = (case c of DrawText _ _ _ _ \<Rightarrow> True | _ \<Rightarrow> False)"

definition plain_backend :: Backend where
  "plain_backend =
     \<lparr>b_new = (\<lambda>_ _ _. None), b_throws = (\<lambda>_ _. None), b_context = Some mono_ctx,
      b_numberToString = (\<lambda>_. []), b_output = (\<lambda>_. None), b_image = (\<lambda>_ _ _. None)\<rparr>"

definition failing_backend :: Backend where
  "failing_backend =
     plain_backend\<lparr>b_throws :=
       (\<lambda>pdf c. case c of
                   DrawText s _ _ _ \<Rightarrow> if s = ''Ada'' then Some (Error ''no glyph'') else None
                 | _ \<Rightarrow> None)\<rparr>"

definition name_field :: Field where
  "name_field =
     \<lparr>f_id = ''name'', f_label = ''Name'', f_type = TextField, f_x = 10, f_y = 20,
      f_fontSize = 12, f_fontFamily = ''Helvetica'', f_fontWeight = ''normal'',
      f_color = ''#000000'', f_maxWidth = None, f_alignment = AlignLeft, f_multiline = None\<rparr>"

definition agree_field :: Field where
  "agree_field =
     \<lparr>f_id = ''agree'', f_label = ''Agree'', f_type = Checkbox, f_x = 10, f_y = 40,
      f_fontSize = 12, f_fontFamily = ''Helvetica'', f_fontWeight = ''normal'',
      f_color = ''#000000'', f_maxWidth = None, f_alignment = AlignLeft, f_multiline = None\<rparr>"

definition demo_template :: Template where
  "demo_template =
     \<lparr>t_id = ''t1'', t_templateName = ''Demo'',
      t_pdfDimensions = \<lparr>dim_width = 100, dim_height = 200\<rparr>,
      t_backgroundImage = [], t_fields = [name_field, agree_field],
      t_createdAt = [], t_updatedAt = [], t_version = ''1.0.0''\<rparr>"

definition demo_data :: FormData where
  "demo_data = [''name'' \<mapsto> VString ''Ada'', ''agree'' \<mapsto> VString ''1'']"

definition no_options :: ExportOptions where
  "no_options = \<lparr>o_format = None, o_quality = None, o_filename = None, o_includeBackground = None\<rparr>"

definition checkbox_data :: "FormValue \<Rightarrow> FormData" where
  "checkbox_data v = [''agree'' \<mapsto> v]"

definition font_calls :: "PdfOp list" where
  "font_calls = [SetFont ''Helvetica'' ''normal'', SetFontSize 12, SetTextColor ''#000000'']"

section \<open>Template import (src/utils/templateSaver.ts and src/App.tsx)\<close>

text \<open>
  What \<open>JSON.parse\<close> returns. An object lists its members once each, in order.
\<close>

datatype json =
    JNull
  | JBool bool
  | JNumber real
  | JString string
  | JArray "json list"
  | JObject "(string \<times> json) list"

text \<open>
  JavaScript on these values: \<open>truthy\<close> is the conversion to boolean, \<open>typeof_object\<close> is
  \<open>typeof v === 'object'\<close>, \<open>member_of v k\<close> is the own member \<open>k\<close> of an object (\<open>None\<close> for
  \<open>undefined\<close>; the four required keys and \<open>width\<close>, \<open>height\<close> are members of nothing else),
  \<open>k in v\<close> is \<open>member_of v k \<noteq> None\<close>, \<open>isArray\<close> is \<open>Array.isArray\<close>, \<open>read_member\<close> is the
  property read \<open>v.k\<close>, which throws a TypeError on \<open>undefined\<close> and \<open>null\<close>, and \<open>falsy\<close> is
  \<open>!v\<close> for a value that may be \<open>undefined\<close>.
\<close>

definition truthy :: "json \<Rightarrow> bool" where
  "truthy v =
     (case v of
        JNull \<Rightarrow> False
      | JBool t \<Rightarrow> t
      | JNumber n \<Rightarrow> n \<noteq> 0
      | JString s \<Rightarrow> s \<noteq> []
      | JArray _ \<Rightarrow> True
      | JObject _ \<Rightarrow> True)"

definition typeof_object :: "json \<Rightarrow> bool" where
  "typeof_object v = (case v of JNull \<Rightarrow> True | JArray _ \<Rightarrow> True | JObject _ \<Rightarrow> True | _ \<Rightarrow> False)"

definition member_of :: "json \<Rightarrow> string \<Rightarrow> json option" where
  "member_of v k = (case v of JObject kvs \<Rightarrow> map_of kvs k | _ \<Rightarrow> None)"

definition isArray :: "json option \<Rightarrow> bool" where
  "isArray v = (case v of Some (JArray _) \<Rightarrow> True | _ \<Rightarrow> False)"

definition read_member :: "json option \<Rightarrow> string \<Rightarrow> Thrown + json option" where
  "read_member v k =
     (case v of
        None \<Rightarrow> Inl (Error ''TypeError'')
      | Some JNull \<Rightarrow> Inl (Error ''TypeError'')
      | Some w \<Rightarrow> Inr (member_of w k))"

definition falsy :: "json option \<Rightarrow> bool" where
  "falsy v = (case v of None \<Rightarrow> True | Some w \<Rightarrow> \<not> truthy w)"

definition requiredFields :: "string list" where
  "requiredFields = [''id'', ''templateName'', ''pdfDimensions'', ''fields'']"

definition validateTemplate :: "json \<Rightarrow> Thrown + bool" where
  "validateTemplate template =
     (if \<not> truthy template \<or> \<not> typeof_object template then Inr False
      else
        let hasRequiredFields = list_all (\<lambda>field. member_of template field \<noteq> None) requiredFields
        in if \<not> hasRequiredFields then Inr False
           else case read_member (member_of template ''pdfDimensions'') ''width'' of
                  Inl e \<Rightarrow> Inl e
                | Inr w \<Rightarrow>
                    if falsy w then Inr False
                    else case read_member (member_of template ''pdfDimensions'') ''height'' of
                           Inl e \<Rightarrow> Inl e
                         | Inr h \<Rightarrow>
                             if falsy h then Inr False
                             else if \<not> isArray (member_of template ''fields'') then Inr False
                             else Inr True)"

text \<open>The assignment \<open>template.updatedAt = ...\<close> on the members of an object.\<close>

fun set_member :: "(string \<times> json) list \<Rightarrow> string \<Rightarrow> json \<Rightarrow> (string \<times> json) list" where
  "set_member [] k v = [(k, v)]"
| "set_member ((k', v') # kvs) k v = (if k' = k then (k, v) # kvs else (k', v') # set_member kvs k v)"

text \<open>
  \<open>importTemplate\<close> settles its promise once the file is read: \<open>Inl\<close> is the message of the
  rejection, \<open>Inr\<close> the template resolved. \<open>JSON.parse\<close> (\<open>None\<close> when it throws) and the
  current time are parameters. An exception inside \<open>onload\<close>, also one thrown by
  \<open>validateTemplate\<close>, is caught and rejects with \<open>Failed to parse template file\<close>.
\<close>

datatype FileRead = ReadError | Content string

definition importTemplate :: "(string \<Rightarrow> json option) \<Rightarrow> string \<Rightarrow> FileRead \<Rightarrow> string + json" where
  "importTemplate JSON_parse now file =
     (case file of
        ReadError \<Rightarrow> Inl ''Failed to read template file''
      | Content content \<Rightarrow>
          (case JSON_parse content of
             None \<Rightarrow> Inl ''Failed to parse template file''
           | Some template \<Rightarrow>
               (case validateTemplate template of
                  Inl e \<Rightarrow> Inl ''Failed to parse template file''
                | Inr ok \<Rightarrow>
                    if \<not> ok then Inl ''Invalid template format''
                    else (case template of
                            JObject kvs \<Rightarrow> Inr (JObject (set_member kvs ''updatedAt'' (JString now)))
                          | _ \<Rightarrow> Inr template))))"

text \<open>
  \<open>handleImportTemplate\<close> of the application: the active template is replaced only when
  the import resolves.
\<close>

record AppState =
  app_template :: "json option"
  app_notifications :: "(string \<times> string) list"

definition handleImportTemplate ::
  "(string \<Rightarrow> json option) \<Rightarrow> string \<Rightarrow> FileRead option \<Rightarrow> AppState \<Rightarrow> AppState" where
  "handleImportTemplate JSON_parse now file st =
     (case file of
        None \<Rightarrow> st
      | Some f \<Rightarrow>
          (case importTemplate JSON_parse now f of
             Inr importedTemplate \<Rightarrow>
               st\<lparr>app_template := Some importedTemplate,
                  app_notifications := app_notifications st @ [(''success'', ''Template imported successfully!'')]\<rparr>
           | Inl err \<Rightarrow>
               st\<lparr>app_notifications := app_notifications st @ [(''error'', ''Failed to import template'')]\<rparr>))"

text \<open>
  Example documents: one with a negative width, one without \<open>pdfDimensions\<close>;
  \<open>demo_parse\<close> stands for \<open>JSON.parse\<close> on the contents of two files.
\<close>

definition negative_doc :: json where
  "negative_doc =
     JObject [(''id'', JString ''t1''), (''templateName'', JString ''Demo''),
              (''pdfDimensions'', JObject [(''width'', JNumber (- 5)), (''height'', JNumber 100)]),
              (''fields'', JArray [])]"

definition nodims_doc :: json where
  "nodims_doc =
     JObject [(''id'', JString ''t1''), (''templateName'', JString ''Demo''), (''fields'', JArray [])]"

definition demo_parse :: "string \<Rightarrow> json option" where
  "demo_parse content =
     (if content = ''negative.json'' then Some negative_doc
      else if content = ''nodims.json'' then Some nodims_doc
      else None)"

definition negative_imported :: json where
  "negative_imported =
     JObject [(''id'', JString ''t1''), (''templateName'', JString ''Demo''),
              (''pdfDimensions'', JObject [(''width'', JNumber (- 5)), (''height'', JNumber 100)]),
              (''fields'', JArray []), (''updatedAt'', JString ''2024-01-01'')]"

definition empty_app :: AppState where
  "empty_app = \<lparr>app_template = None, app_notifications = []\<rparr>"

section \<open>Font matching (src/utils/fontMatcher.ts)\<close>

text \<open>
  \<open>String.prototype.toLowerCase\<close> applies the Unicode case mappings, which this theory
  does not hold: it is the parameter \<open>toLowerCase\<close> of the constructor and of
  \<open>matchFont\<close>. On a string of ASCII characters it maps \<open>A-Z\<close> to \<open>a-z\<close> and leaves the
  rest, which is \<open>ascii_lowercase\<close>; \<open>folds_ascii\<close> says so of the parameter. In UTF-8
  the ASCII characters are the bytes below 128.
\<close>

definition ascii_lower :: "char \<Rightarrow> char" where
  "ascii_lower c =
     (case map_of (zip ''ABCDEFGHIJKLMNOPQRSTUVWXYZ'' ''abcdefghijklmnopqrstuvwxyz'') c of
        None \<Rightarrow> c
      | Some l \<Rightarrow> l)"

definition ascii_lowercase :: "string \<Rightarrow> string" where
  "ascii_lowercase s = map ascii_lower s"

definition is_ascii :: "string \<Rightarrow> bool" where
  "is_ascii s = list_all (\<lambda>c. \<not> digit7 c) s"

definition folds_ascii :: "(string \<Rightarrow> string) \<Rightarrow> bool" where
  "folds_ascii toLowerCase = (\<forall>s. is_ascii s \<longrightarrow> toLowerCase s = ascii_lowercase s)"

record Font =
  font_name :: string
  font_family :: string
  font_path :: string
  font_loaded :: bool

record FontMapping =
  fm_pdfFont :: string
  fm_systemFont :: string
  fm_fallbacks :: "string list"

definition FONT_MAPPINGS :: "FontMapping list" where
  "FONT_MAPPINGS =
     [\<lparr>fm_pdfFont = ''Helvetica'', fm_systemFont = ''Arial'',
       fm_fallbacks = [''Helvetica'', ''Arial'', ''sans-serif'']\<rparr>,
      \<lparr>fm_pdfFont = ''Helvetica-Bold'', fm_systemFont = ''Arial'',
       fm_fallbacks = [''Helvetica'', ''Arial'', ''sans-serif'']\<rparr>,
      \<lparr>fm_pdfFont = ''Times-Roman'', fm_systemFont = ''Times New Roman'',
       fm_fallbacks = [''Times'', ''Times New Roman'', ''serif'']\<rparr>,
      \<lparr>fm_pdfFont = ''Times-Bold'', fm_systemFont = ''Times New Roman'',
       fm_fallbacks = [''Times'', ''Times New Roman'', ''serif'']\<rparr>,
      \<lparr>fm_pdfFont = ''Courier'', fm_systemFont = ''Courier New'',
       fm_fallbacks = [''Courier'', ''Courier New'', ''monospace'']\<rparr>,
      \<lparr>fm_pdfFont = ''Courier-Bold'', fm_systemFont = ''Courier New'',
       fm_fallbacks = [''Courier'', ''Courier New'', ''monospace'']\<rparr>,
      \<lparr>fm_pdfFont = ''Symbol'', fm_systemFont = ''Symbol'',
       fm_fallbacks = [''Symbol'', ''serif'']\<rparr>,
      \<lparr>fm_pdfFont = ''ZapfDingbats'', fm_systemFont = ''Zapf Dingbats'',
       fm_fallbacks = [''Zapf Dingbats'', ''serif'']\<rparr>]"

text \<open>
  \<open>new Map(entries)\<close>: a later entry with the same key replaces an earlier one. The
  constructor of \<open>FontMatcher\<close> keys both maps by the lower-cased name.
\<close>

definition new_Map :: "('k \<times> 'v) list \<Rightarrow> ('k \<rightharpoonup> 'v)" where
  "new_Map entries = map_of (rev entries)"

record FontMatcher =
  customFonts :: "string \<rightharpoonup> Font"
  fontMappings :: "string \<rightharpoonup> FontMapping"

definition newFontMatcher :: "(string \<Rightarrow> string) \<Rightarrow> Font list \<Rightarrow> FontMatcher" where
  "newFontMatcher toLowerCase fonts =
     \<lparr>customFonts = new_Map (map (\<lambda>font. (toLowerCase (font_name font), font)) fonts),
      fontMappings = new_Map (map (\<lambda>m. (toLowerCase (fm_pdfFont m), m)) FONT_MAPPINGS)\<rparr>"

text \<open>
  \<open>pdfFontName.replace(/-(Bold|Italic|BoldItalic|Oblique)/gi, '')\<close>: scanning from the
  left, at each hyphen the alternatives are tried in the order written, ignoring case,
  and the first that matches is removed together with the hyphen; \<open>style_match\<close> gives
  the length of the alternative that matches. Under the flag \<open>i\<close> (without \<open>u\<close>) a letter
  of the pattern matches the same ASCII letter in either case and no other character,
  so the comparison is that of the ASCII-folded bytes.
\<close>

definition starts_with_ci :: "string \<Rightarrow> string \<Rightarrow> bool" where
  "starts_with_ci p s =
     (length p \<le> length s \<and> ascii_lowercase (take (length p) s) = ascii_lowercase p)"

definition style_match :: "string \<Rightarrow> nat option" where
  "style_match s =
     (if starts_with_ci ''Bold'' s then Some 4
      else if starts_with_ci ''Italic'' s then Some 6
      else if starts_with_ci ''BoldItalic'' s then Some 10
      else if starts_with_ci ''Oblique'' s then Some 7
      else None)"

function strip_style :: "string \<Rightarrow> string" where
  "strip_style [] = []"
| "strip_style (c # cs) =
     (if c = CHR ''-'' then
        (case style_match cs of
           Some n \<Rightarrow> strip_style (drop n cs)
         | None \<Rightarrow> c # strip_style cs)
      else c # strip_style cs)"
  by pat_completeness auto
termination
  by (relation "measure length") auto

definition matchFont :: "(string \<Rightarrow> string) \<Rightarrow> FontMatcher \<Rightarrow> string \<Rightarrow> string" where
  "matchFont toLowerCase fm pdfFontName =
     (let normalizedName = toLowerCase pdfFontName
      in case customFonts fm normalizedName of
           Some customFont \<Rightarrow>
             if font_family customFont \<noteq> [] then font_family customFont else pdfFontName
         | None \<Rightarrow>
             (case fontMappings fm normalizedName of
                Some mapping \<Rightarrow> fm_systemFont mapping
              | None \<Rightarrow>
                  let baseFontName = strip_style pdfFontName;
                      normalizedBaseName = toLowerCase baseFontName
                  in (case fontMappings fm normalizedBaseName of
                        Some baseMapping \<Rightarrow>
                          if fm_systemFont baseMapping \<noteq> [] then fm_systemFont baseMapping
                          else pdfFontName
                      | None \<Rightarrow> pdfFontName)))"

text \<open>A registry font whose name is written in capitals.\<close>

definition shouting_font :: Font where
  "shouting_font = \<lparr>font_name = ''HELVETICA'', font_family = ''MyFont'', font_path = [], font_loaded = True\<rparr>"

section \<open>Theorems\<close>

subsection \<open>Coordinate converter\<close>

lemma rne_near: "\<bar>of_int (rne v) - v\<bar> \<le> 1 / 2"
proof -
  define f where "f = \<lfloor>v\<rfloor>"
  define r where "r = v - of_int f"
  have r: "0 \<le> r" "r < 1" unfolding r_def f_def by linarith+
  have rn: "rne v = (if r < 1 / 2 then f else if r > 1 / 2 then f + 1
                      else if even f then f else f + 1)"
    by (simp add: rne_def Let_def f_def r_def)
  consider "rne v = f" "r \<le> 1 / 2" | "rne v = f + 1" "r \<ge> 1 / 2"
    unfolding rn by (cases "r < 1 / 2"; cases "r > 1 / 2"; cases "even f") auto
  then show ?thesis
  proof cases
    case 1
    have "of_int (rne v) - v = - r" unfolding 1(1) r_def by simp
    then show ?thesis using 1(2) r by linarith
  next
    case 2
    have "of_int (rne v) - v = 1 - r" unfolding 2(1) r_def by simp
    then show ?thesis using 2(2) r by linarith
  qed
qed

lemma two_powr_int: "(2::real) powr (of_int e) = 2 powi e"
  by (rule powr_real_of_int') simp_all

lemma two_powi_floor_log: "z \<noteq> 0 \<Longrightarrow> (2::real) powi \<lfloor>log 2 \<bar>z\<bar>\<rfloor> \<le> \<bar>z\<bar>"
proof -
  assume z: "z \<noteq> 0"
  have "(2::real) powr (of_int \<lfloor>log 2 \<bar>z\<bar>\<rfloor>) \<le> \<bar>z\<bar>"
    using z floor_log_eq_powr_iff[of "\<bar>z\<bar>" 2 "\<lfloor>log 2 \<bar>z\<bar>\<rfloor>"] by simp
  then show ?thesis by (simp only: two_powr_int)
qed

lemma binade_eq:
  assumes "(2::real) powi e \<le> \<bar>z\<bar>" and "\<bar>z\<bar> < 2 powi (e + 1)" and "- 1022 \<le> e"
  shows "binade z = e"
proof -
  have "(0::real) < 2 powi e" by simp
  then have z: "\<bar>z\<bar> > 0" using assms(1) by linarith
  have a: "(2::real) powr (of_int e) \<le> \<bar>z\<bar>" unfolding two_powr_int by (rule assms(1))
  have "(2::real) powr (of_int (e + 1)) = 2 powi (e + 1)" by (rule two_powr_int)
  then have b: "\<bar>z\<bar> < (2::real) powr (of_int e + 1)" using assms(2) by simp
  have "\<lfloor>log 2 \<bar>z\<bar>\<rfloor> = e"
    using floor_log_eq_powr_iff[of "\<bar>z\<bar>" 2 e] z a b by simp
  then show ?thesis using assms(3) by (simp add: binade_def)
qed

lemma round_double_eq:
  assumes "(2::real) powi e \<le> \<bar>z\<bar>" and "\<bar>z\<bar> < 2 powi (e + 1)" and "- 1022 \<le> e"
  shows "round_double z = of_int (rne (z / 2 powi (e - 52))) * 2 powi (e - 52)"
proof -
  have "(0::real) < 2 powi e" by simp
  then have "\<bar>z\<bar> > 0" using assms(1) by linarith
  then have "z \<noteq> 0" by simp
  then show ?thesis by (simp add: round_double_def binade_eq[OF assms])
qed

lemma round_double_near:
  assumes "z \<noteq> 0"
  shows "\<bar>round_double z - z\<bar> \<le> 2 powi (binade z) / 2 ^ 53"
proof -
  define s :: real where "s = 2 powi (binade z - 52)"
  define n where "n = rne (z / s)"
  have s: "0 < s" by (simp add: s_def)
  have rd: "round_double z = of_int n * s"
    using assms by (simp add: round_double_def n_def s_def)
  have "\<bar>of_int n - z / s\<bar> * s \<le> (1 / 2) * s"
    unfolding n_def using rne_near[of "z / s"] s by (intro mult_right_mono) simp_all
  moreover have "\<bar>of_int n - z / s\<bar> * s = \<bar>of_int n * s - z\<bar>"
  proof -
    have "\<bar>of_int n - z / s\<bar> * s = \<bar>(of_int n - z / s) * s\<bar>"
      using s by (simp add: abs_mult)
    also have "(of_int n - z / s) * s = of_int n * s - z"
      using s by (simp add: field_simps)
    finally show ?thesis .
  qed
  ultimately have "\<bar>round_double z - z\<bar> \<le> s / 2" by (simp add: rd)
  moreover have "s / 2 = 2 powi (binade z) / 2 ^ 53"
    by (simp add: s_def power_int_diff)
  ultimately show ?thesis by simp
qed

lemma round_double_error_normal:
  assumes "(2::real) powi (- 1022) \<le> \<bar>z\<bar>"
  shows "\<bar>round_double z - z\<bar> \<le> \<bar>z\<bar> / 2 ^ 53"
proof -
  have "(0::real) < 2 powi (- 1022)" by simp
  then have pos: "0 < \<bar>z\<bar>" using assms by linarith
  then have z: "z \<noteq> 0" by simp
  have "(2::real) powr (of_int (- 1022)) \<le> \<bar>z\<bar>"
    unfolding two_powr_int by (rule assms)
  then have "of_int (- 1022) \<le> log 2 \<bar>z\<bar>"
    using pos by (subst le_log_iff) simp_all
  then have "- 1022 \<le> \<lfloor>log 2 \<bar>z\<bar>\<rfloor>" by (simp add: le_floor_iff)
  then have "binade z = \<lfloor>log 2 \<bar>z\<bar>\<rfloor>" by (simp add: binade_def)
  then have "2 powi (binade z) \<le> \<bar>z\<bar>" using two_powi_floor_log[OF z] by simp
  then have "2 powi (binade z) / 2 ^ 53 \<le> \<bar>z\<bar> / 2 ^ 53" by (simp add: divide_right_mono)
  then show ?thesis using round_double_near[OF z] by linarith
qed

lemma round_double_error:
  "\<bar>round_double z - z\<bar> \<le> \<bar>z\<bar> / 2 ^ 53 + 1 / 2 ^ 1075"
proof (cases "(2::real) powi (- 1022) \<le> \<bar>z\<bar>")
  case True
  have "(0::real) \<le> 1 / 2 ^ 1075" by simp
  then show ?thesis using round_double_error_normal[OF True] by linarith
next
  case False
  have nn: "(0::real) \<le> \<bar>z\<bar> / 2 ^ 53" by simp
  show ?thesis
  proof (cases "z = 0")
    case True
    then show ?thesis by (simp add: round_double_def)
  next
    case z: False
    have "\<lfloor>log 2 \<bar>z\<bar>\<rfloor> < - 1022"
    proof (rule ccontr)
      assume "\<not> \<lfloor>log 2 \<bar>z\<bar>\<rfloor> < - 1022"
      then have "(2::real) powi (- 1022) \<le> 2 powi \<lfloor>log 2 \<bar>z\<bar>\<rfloor>"
        by (intro power_int_increasing) simp_all
      then show False using two_powi_floor_log[OF z] False by linarith
    qed
    then have "binade z = - 1022" by (simp add: binade_def)
    then have "2 powi (binade z) / 2 ^ 53 = (1::real) / 2 ^ 1075"
      by (simp add: power_int_minus_divide)
    then show ?thesis using round_double_near[OF z] nn by linarith
  qed
qed

lemma rd_err:
  "\<bar>round_double z - z\<bar>
     \<le> \<bar>z\<bar> / 9000000000000000 + 1 / 10000000000000000000000000000000000000000"
proof -
  have "\<bar>z\<bar> / 2 ^ 53 \<le> \<bar>z\<bar> / 9000000000000000"
    by (intro divide_left_mono) simp_all
  moreover have "(1::real) / 2 ^ 1075 \<le> 1 / 10000000000000000000000000000000000000000"
    by simp
  ultimately show ?thesis using round_double_error[of z] by linarith
qed

lemma rd_err_normal:
  assumes "1 / 1000000000000000000 \<le> \<bar>z\<bar>"
  shows "\<bar>round_double z - z\<bar> \<le> \<bar>z\<bar> / 9000000000000000"
proof -
  have "(2::real) powi (- 1022) \<le> 1 / 1000000000000000000"
    by (simp add: power_int_minus_divide)
  then have "(2::real) powi (- 1022) \<le> \<bar>z\<bar>" using assms by linarith
  then have "\<bar>round_double z - z\<bar> \<le> \<bar>z\<bar> / 2 ^ 53" by (rule round_double_error_normal)
  moreover have "\<bar>z\<bar> / 2 ^ 53 \<le> \<bar>z\<bar> / 9000000000000000"
    by (intro divide_left_mono) simp_all
  ultimately show ?thesis by linarith
qed

lemma to_double_Some:
  assumes "\<bar>z\<bar> \<le> 100000000000000000000"
  shows "to_double z = Some (round_double z)"
proof -
  have "\<bar>round_double z\<bar> \<le> \<bar>z\<bar> + \<bar>round_double z - z\<bar>" by linarith
  then have "\<bar>round_double z\<bar> \<le> 200000000000000000001"
    using rd_err[of z] assms by linarith
  moreover have "(200000000000000000001::real) < 2 ^ 1024" by simp
  ultimately have "\<bar>round_double z\<bar> < 2 ^ 1024" by linarith
  then show ?thesis by (simp add: to_double_def)
qed

lemma rd_bound:
  assumes "\<bar>z\<bar> \<le> B"
  shows "\<bar>round_double z - z\<bar>
           \<le> B / 9000000000000000 + 1 / 10000000000000000000000000000000000000000"
proof -
  have "\<bar>z\<bar> / 9000000000000000 \<le> B / 9000000000000000"
    using assms by (intro divide_right_mono) simp_all
  then show ?thesis using rd_err[of z] by linarith
qed

lemma ratio_bounds:
  assumes "1 / 1000000000 \<le> c" "c \<le> 1000000000" "1 / 1000000000 \<le> p" "p \<le> (1000000000::real)"
  shows "1 / 1000000000000000000 \<le> c / p" and "c / p \<le> 1000000000000000000"
proof -
  have p: "0 < p" and c: "0 < c" using assms by linarith+
  have "1 / 1000000000000000000 * p \<le> 1 / 1000000000000000000 * 1000000000"
    using assms(4) by (intro mult_left_mono) simp_all
  then have "1 / 1000000000000000000 * p \<le> c" using assms(1) by simp
  then show "1 / 1000000000000000000 \<le> c / p" using p by (simp add: pos_le_divide_eq)
  have "1000000000000000000 * p \<ge> 1000000000000000000 * (1 / 1000000000)"
    using assms(3) by (intro mult_left_mono) simp_all
  then have "c \<le> 1000000000000000000 * p" using assms(2) by simp
  then show "c / p \<le> 1000000000000000000" using p by (simp add: pos_divide_le_eq)
qed

lemma first_mul:
  assumes "1 / 1000000000 \<le> c" "c \<le> 1000000000" "1 / 1000000000 \<le> p" "p \<le> (1000000000::real)"
    and "0 \<le> v" "v \<le> p"
  shows "\<bar>round_double (v * round_double (c / p)) - v * (c / p)\<bar> \<le> c / 4000000000000000"
    and "\<bar>v * round_double (c / p)\<bar> \<le> 2 * c"
proof -
  define q where "q = c / p"
  define a where "a = round_double q"
  have p: "0 < p" and c: "0 < c" using assms by linarith+
  have q: "1 / 1000000000000000000 \<le> q"
    using ratio_bounds(1)[OF assms(1-4)] by (simp add: q_def)
  have q0: "0 < q" using p c by (simp add: q_def)
  have a: "\<bar>a - q\<bar> \<le> q / 9000000000000000"
    unfolding a_def using rd_err_normal[of q] q q0 by simp
  have vq: "v * q \<le> c"
  proof -
    have "v * q \<le> p * q" using assms(6) q0 by (intro mult_right_mono) simp_all
    then show ?thesis using p by (simp add: q_def)
  qed
  have vq0: "0 \<le> v * q" using assms(5) q0 by simp
  define w where "w = v * q"
  define m where "m = v * a"
  have "\<bar>m - w\<bar> = v * \<bar>a - q\<bar>"
    using assms(5) by (simp add: m_def w_def abs_mult flip: right_diff_distrib)
  also have "\<dots> \<le> v * (q / 9000000000000000)"
    using a assms(5) by (intro mult_left_mono)
  also have "\<dots> = w / 9000000000000000" by (simp add: w_def)
  finally have va: "\<bar>m - w\<bar> \<le> w / 9000000000000000" .
  have w: "0 \<le> w" "w \<le> c" using vq vq0 by (simp_all add: w_def)
  have mb: "\<bar>m\<bar> \<le> c + c / 9000000000000000" using va w assms(1) by linarith
  have t: "\<bar>round_double m - m\<bar>
      \<le> (c + c / 9000000000000000) / 9000000000000000
          + 1 / 10000000000000000000000000000000000000000"
    by (rule rd_bound[OF mb])
  have "\<bar>round_double m - w\<bar> \<le> c / 4000000000000000"
    using va t w assms(1) by argo
  then show "\<bar>round_double (v * round_double (c / p)) - v * (c / p)\<bar> \<le> c / 4000000000000000"
    by (simp add: m_def w_def a_def q_def)
  have "\<bar>m\<bar> \<le> 2 * c" using mb assms(1) by linarith
  then show "\<bar>v * round_double (c / p)\<bar> \<le> 2 * c"
    by (simp add: m_def a_def q_def)
qed

lemma two_sub:
  assumes "1 / 1000000000 \<le> c" "c \<le> (1000000000::real)"
    and "\<bar>t - w\<bar> \<le> c / 4000000000000000" and "0 \<le> w" "w \<le> c"
  shows "\<bar>round_double (c - round_double (c - t)) - w\<bar> \<le> 5 * c / 8000000000000000"
    and "\<bar>c - round_double (c - t)\<bar> \<le> 2 * c"
    and "\<bar>c - t\<bar> \<le> 2 * c"
proof -
  define e1 where "e1 = round_double (c - t) - (c - t)"
  define e2 where "e2 = round_double (c - round_double (c - t)) - (c - round_double (c - t))"
  have ct: "\<bar>c - t\<bar> \<le> c + c / 1000000000000000" using assms by linarith
  have b1: "\<bar>e1\<bar> \<le> (c + c / 1000000000000000) / 9000000000000000
                     + 1 / 10000000000000000000000000000000000000000"
    unfolding e1_def by (rule rd_bound[OF ct])
  have eq1: "c - round_double (c - t) = t - e1" by (simp add: e1_def)
  have cy: "\<bar>t - e1\<bar> \<le> c + c / 1000000000000000" using b1 assms by argo
  have cy': "\<bar>c - round_double (c - t)\<bar> \<le> c + c / 1000000000000000"
    unfolding eq1 by (rule cy)
  have b2: "\<bar>e2\<bar> \<le> (c + c / 1000000000000000) / 9000000000000000
                     + 1 / 10000000000000000000000000000000000000000"
    unfolding e2_def by (rule rd_bound[OF cy'])
  have eq2: "round_double (c - round_double (c - t)) - w = e2 - e1 + (t - w)"
    by (simp add: e1_def e2_def)
  show "\<bar>c - t\<bar> \<le> 2 * c" using ct assms(1) by linarith
  show "\<bar>c - round_double (c - t)\<bar> \<le> 2 * c" using cy' assms(1) by linarith
  show "\<bar>round_double (c - round_double (c - t)) - w\<bar> \<le> 5 * c / 8000000000000000"
    unfolding eq2 using b1 b2 assms by argo
qed

lemma final_mul:
  assumes "1 / 1000000000 \<le> c" "c \<le> 1000000000" "1 / 1000000000 \<le> p" "p \<le> (1000000000::real)"
    and "0 \<le> v" "v \<le> p"
    and "\<bar>d - v * (c / p)\<bar> \<le> 5 * c / 8000000000000000"
  shows "\<bar>round_double (d * round_double (p / c)) - v\<bar> \<le> p / 1000000000000000"
    and "\<bar>d * round_double (p / c)\<bar> \<le> 2 * p"
proof -
  define q' where "q' = p / c"
  define b where "b = round_double q'"
  define w where "w = v * (c / p)"
  have p: "0 < p" and c: "0 < c" using assms by linarith+
  have q': "1 / 1000000000000000000 \<le> q'"
    using ratio_bounds(1)[OF assms(3,4,1,2)] by (simp add: q'_def)
  have q'0: "0 < q'" using p c by (simp add: q'_def)
  have b: "\<bar>b - q'\<bar> \<le> q' / 9000000000000000"
    unfolding b_def using rd_err_normal[of q'] q' q'0 by simp
  have cq: "c * q' = p" using c by (simp add: q'_def)
  have wq: "w * q' = v" using c p by (simp add: w_def q'_def)
  have w0: "0 \<le> w" using assms(5) c p by (simp add: w_def)
  have split: "d * b - v = (d - w) * b + w * (b - q')"
    using wq by (simp add: algebra_simps)
  have babs: "\<bar>b\<bar> \<le> q' + q' / 9000000000000000" using b q'0 by linarith
  have "\<bar>(d - w) * b\<bar> = \<bar>d - w\<bar> * \<bar>b\<bar>" by (simp add: abs_mult)
  also have "\<dots> \<le> (5 * c / 8000000000000000) * (q' + q' / 9000000000000000)"
    using assms(7) babs c by (intro mult_mono) (simp_all add: w_def)
  also have "\<dots> = 5 * (c * q') / 8000000000000000 + 5 * (c * q') / 72000000000000000000000000000000"
    by (simp add: algebra_simps)
  finally have e1: "\<bar>(d - w) * b\<bar>
      \<le> 5 * p / 8000000000000000 + 5 * p / 72000000000000000000000000000000"
    unfolding cq .
  have "\<bar>w * (b - q')\<bar> = w * \<bar>b - q'\<bar>" using w0 by (simp add: abs_mult)
  also have "\<dots> \<le> w * (q' / 9000000000000000)"
    using b w0 by (intro mult_left_mono)
  also have "\<dots> = (w * q') / 9000000000000000" by simp
  finally have e2: "\<bar>w * (b - q')\<bar> \<le> v / 9000000000000000" unfolding wq .
  have db: "\<bar>d * b - v\<bar>
      \<le> 5 * p / 8000000000000000 + 5 * p / 72000000000000000000000000000000
          + v / 9000000000000000"
    unfolding split using e1 e2 by linarith
  have r: "\<bar>round_double (d * b) - d * b\<bar>
      \<le> \<bar>d * b\<bar> / 9000000000000000 + 1 / 10000000000000000000000000000000000000000"
    by (rule rd_err)
  show "\<bar>round_double (d * round_double (p / c)) - v\<bar> \<le> p / 1000000000000000"
    using db r assms(3,5,6) unfolding b_def q'_def by linarith
  show "\<bar>d * round_double (p / c)\<bar> \<le> 2 * p"
    using db assms(3,5,6) unfolding b_def q'_def by linarith
qed

lemma ddiv_Some:
  assumes "1 / 1000000000 \<le> c" "c \<le> 1000000000" "1 / 1000000000 \<le> p" "p \<le> (1000000000::real)"
  shows "ddiv c p = Some (round_double (c / p))"
proof -
  have "0 < c / p" using assms by simp
  then have "\<bar>c / p\<bar> \<le> 100000000000000000000"
    using ratio_bounds(2)[OF assms] by linarith
  then show ?thesis using assms(3) by (simp add: ddiv_def to_double_Some)
qed

lemma dmul_Some: "\<bar>a * b\<bar> \<le> 100000000000000000000 \<Longrightarrow> dmul (Some a) (Some b) = Some (round_double (a * b))"
  by (simp add: dmul_def to_double_Some)

lemma dsub_Some: "\<bar>a - b\<bar> \<le> 100000000000000000000 \<Longrightarrow> dsub (Some a) (Some b) = Some (round_double (a - b))"
  by (simp add: dsub_def to_double_Some)

lemma ex_a: "round_double (3 / 10 ^ 12) = 7427640235712282 / 2 ^ 91"
  apply (subst round_double_eq[where e = "-39"])
     apply (simp_all add: power_int_minus rne_def Let_def)
  done

lemma ex_Yc: "round_double (3 - 7427640235712282 / 2 ^ 91) = 6755399441048989 / 2 ^ 51"
  apply (subst round_double_eq[where e = "1"])
     apply (simp_all add: power_int_minus rne_def Let_def)
  done

lemma ex_b: "round_double (10 ^ 12 / 3) = 5461333333333333 / 2 ^ 14"
  apply (subst round_double_eq[where e = "38"])
     apply (simp_all add: power_int_minus rne_def Let_def)
  done

lemma ex_d: "round_double (3 - 6755399441048989 / 2 ^ 51) = 6755 / 2 ^ 51"
  apply (subst round_double_eq[where e = "-39"])
     apply (simp_all add: power_int_minus rne_def Let_def)
  done

lemma ex_y: "round_double (6755 / 2 ^ 51 * (5461333333333333 / 2 ^ 14)) = 4503333333333333 / 2 ^ 52"
  apply (subst round_double_eq[where e = "-1"])
     apply (simp_all add: power_int_minus rne_def Let_def)
  done

lemma ex_x: "round_double (7427640235712282 / 2 ^ 91 * (5461333333333333 / 2 ^ 14)) = 1"
  apply (subst round_double_eq[where e = "-1"])
     apply (simp_all add: power_int_minus rne_def Let_def)
  done

lemma ex_t: "round_double (7427640235712282 / 2 ^ 91) = 7427640235712282 / 2 ^ 91"
  apply (subst round_double_eq[where e = "-39"])
     apply (simp_all add: power_int_minus rne_def Let_def)
  done


lemma dmul_SS: "dmul (Some a) (Some b) = to_double (a * b)"
  by (simp add: dmul_def)

lemma dsub_SS: "dsub (Some a) (Some b) = to_double (a - b)"
  by (simp add: dsub_def)

lemma huge_dims:
  "dim_width (cc_pdfDimensions huge_converter) = 10 ^ 12"
  "dim_height (cc_pdfDimensions huge_converter) = 10 ^ 12"
  "dim_width (cc_canvasDimensions huge_converter) = 3"
  "dim_height (cc_canvasDimensions huge_converter) = 3"
  by (simp_all add: huge_converter_def)

lemma huge_scale: "ddiv 3 (10 ^ 12) = Some (7427640235712282 / 2 ^ 91)"
  unfolding ddiv_def to_double_def Let_def ex_a by simp

lemma huge_scale_inv: "ddiv (10 ^ 12) 3 = Some (5461333333333333 / 2 ^ 14)"
  unfolding ddiv_def to_double_def Let_def ex_b by simp

lemma huge_fwd_mul: "dmul (Some 1) (Some (7427640235712282 / 2 ^ 91)) = Some (7427640235712282 / 2 ^ 91)"
  unfolding dmul_SS mult_1 to_double_def Let_def ex_t by simp

lemma huge_fwd_sub: "dsub (Some 3) (Some (7427640235712282 / 2 ^ 91)) = Some (6755399441048989 / 2 ^ 51)"
  unfolding dsub_SS to_double_def Let_def ex_Yc by simp

lemma huge_bwd_sub: "dsub (Some 3) (Some (6755399441048989 / 2 ^ 51)) = Some (6755 / 2 ^ 51)"
  unfolding dsub_SS to_double_def Let_def ex_d by simp

lemma huge_bwd_mul_x:
  "dmul (Some (7427640235712282 / 2 ^ 91)) (Some (5461333333333333 / 2 ^ 14)) = Some 1"
  unfolding dmul_SS to_double_def Let_def ex_x by simp

lemma huge_bwd_mul_y:
  "dmul (Some (6755 / 2 ^ 51)) (Some (5461333333333333 / 2 ^ 14)) = Some (4503333333333333 / 2 ^ 52)"
  unfolding dmul_SS to_double_def Let_def ex_y by simp

lemma letter_sx_round: "round_double (800 / 612) = 5887058336432021 / 2 ^ 52"
  apply (subst round_double_eq[where e = "0"])
     apply (simp_all add: power_int_minus rne_def Let_def)
  done

lemma letter_sx: "ddiv 800 612 = Some (5887058336432021 / 2 ^ 52)"
  unfolding ddiv_def to_double_def Let_def letter_sx_round by simp

lemma letter_cx_round: "round_double (100 * (5887058336432021 / 2 ^ 52)) = 1149816081334379 / 2 ^ 43"
  apply (subst round_double_eq[where e = "7"])
     apply (simp_all add: power_int_minus rne_def Let_def)
  done

lemma letter_cx: "dmul (Some 100) (Some (5887058336432021 / 2 ^ 52)) = Some (1149816081334379 / 2 ^ 43)"
  unfolding dmul_SS to_double_def Let_def letter_cx_round by simp

lemma letter_sy_round: "round_double (1000 / 792) = 2843181582935919 / 2 ^ 51"
  apply (subst round_double_eq[where e = "0"])
     apply (simp_all add: power_int_minus rne_def Let_def)
  done

lemma letter_sy: "ddiv 1000 792 = Some (2843181582935919 / 2 ^ 51)"
  unfolding ddiv_def to_double_def Let_def letter_sy_round by simp

lemma letter_t_round: "round_double (200 * (2843181582935919 / 2 ^ 51)) = 8884942446674747 / 2 ^ 45"
  apply (subst round_double_eq[where e = "7"])
     apply (simp_all add: power_int_minus rne_def Let_def)
  done

lemma letter_t: "dmul (Some 200) (Some (2843181582935919 / 2 ^ 51)) = Some (8884942446674747 / 2 ^ 45)"
  unfolding dmul_SS to_double_def Let_def letter_t_round by simp

lemma letter_cy_round: "round_double (1000 - 8884942446674747 / 2 ^ 45) = 6574857410539313 / 2 ^ 43"
  apply (subst round_double_eq[where e = "9"])
     apply (simp_all add: power_int_minus rne_def Let_def)
  done

lemma letter_cy: "dsub (Some 1000) (Some (8884942446674747 / 2 ^ 45)) = Some (6574857410539313 / 2 ^ 43)"
  unfolding dsub_SS to_double_def Let_def letter_cy_round by simp

lemma letter_bx_round: "round_double (612 / 800) = 6890507429876859 / 2 ^ 53"
  apply (subst round_double_eq[where e = "-1"])
     apply (simp_all add: power_int_minus rne_def Let_def)
  done

lemma letter_bx: "ddiv 612 800 = Some (6890507429876859 / 2 ^ 53)"
  unfolding ddiv_def to_double_def Let_def letter_bx_round by simp

lemma letter_x2_round: "round_double ((1149816081334379 / 2 ^ 43) * (6890507429876859 / 2 ^ 53)) = 100"
  apply (subst round_double_eq[where e = "6"])
     apply (simp_all add: power_int_minus rne_def Let_def)
  done

lemma letter_x2: "dmul (Some (1149816081334379 / 2 ^ 43)) (Some (6890507429876859 / 2 ^ 53)) = Some 100"
  unfolding dmul_SS to_double_def Let_def letter_x2_round by simp

lemma letter_by_round: "round_double (792 / 1000) = 3566850904877433 / 2 ^ 52"
  apply (subst round_double_eq[where e = "-1"])
     apply (simp_all add: power_int_minus rne_def Let_def)
  done

lemma letter_by: "ddiv 792 1000 = Some (3566850904877433 / 2 ^ 52)"
  unfolding ddiv_def to_double_def Let_def letter_by_round by simp

lemma letter_d_round: "round_double (1000 - 6574857410539313 / 2 ^ 43) = 2221235611668687 / 2 ^ 43"
  apply (subst round_double_eq[where e = "7"])
     apply (simp_all add: power_int_minus rne_def Let_def)
  done

lemma letter_d: "dsub (Some 1000) (Some (6574857410539313 / 2 ^ 43)) = Some (2221235611668687 / 2 ^ 43)"
  unfolding dsub_SS to_double_def Let_def letter_d_round by simp

lemma letter_y2_round: "round_double ((2221235611668687 / 2 ^ 43) * (3566850904877433 / 2 ^ 52)) = 7036874417766401 / 2 ^ 45"
  apply (subst round_double_eq[where e = "7"])
     apply (simp_all add: power_int_minus rne_def Let_def)
  done

lemma letter_y2: "dmul (Some (2221235611668687 / 2 ^ 43)) (Some (3566850904877433 / 2 ^ 52)) = Some (7036874417766401 / 2 ^ 45)"
  unfolding dmul_SS to_double_def Let_def letter_y2_round by simp

lemma letter_dims:
  "dim_width (cc_pdfDimensions letter_converter) = 612"
  "dim_height (cc_pdfDimensions letter_converter) = 792"
  "dim_width (cc_canvasDimensions letter_converter) = 800"
  "dim_height (cc_canvasDimensions letter_converter) = 1000"
  by (simp_all add: letter_converter_def)

lemma letter_forward:
  "pdfToCanvas_double letter_converter (Some 100) (Some 200) = (Some (1149816081334379 / 2 ^ 43), Some (6574857410539313 / 2 ^ 43))"
  unfolding pdfToCanvas_double_def Let_def letter_dims letter_sx letter_cx letter_sy letter_t
    letter_cy ..

lemma letter_backward:
  "canvasToPdf_double letter_converter (Some (1149816081334379 / 2 ^ 43)) (Some (6574857410539313 / 2 ^ 43)) = (Some 100, Some (7036874417766401 / 2 ^ 45))"
  unfolding canvasToPdf_double_def Let_def letter_dims letter_bx letter_x2 letter_by letter_d
    letter_y2 ..

text \<open>
  Claim C3, as amended. In double-precision arithmetic, for every pair of document and
  display dimensions whose four components lie between \<open>1e-9\<close> and \<open>1e9\<close> and every point
  inside the document bounds (\<open>0 \<le> x \<le> width\<close>, \<open>0 \<le> y \<le> height\<close>), converting Source to
  Display and back yields finite numbers and returns the original point within \<open>1e-6\<close>
  in both coordinates, whatever the zoom factor \<open>cc_scale\<close> is. On the US Letter page
  shown on the 800 x 1000 canvas the point \<open>(100, 200)\<close> goes to
  \<open>(130.718954248366, 747.4747474747475)\<close> and comes back as
  \<open>(100, 200.00000000000003)\<close>.
\<close>

theorem roundtrip_double:
  assumes pw: "1 / 1000000000 \<le> dim_width (cc_pdfDimensions c)"
              "dim_width (cc_pdfDimensions c) \<le> 1000000000"
    and ph: "1 / 1000000000 \<le> dim_height (cc_pdfDimensions c)"
            "dim_height (cc_pdfDimensions c) \<le> 1000000000"
    and cw: "1 / 1000000000 \<le> dim_width (cc_canvasDimensions c)"
            "dim_width (cc_canvasDimensions c) \<le> 1000000000"
    and ch: "1 / 1000000000 \<le> dim_height (cc_canvasDimensions c)"
            "dim_height (cc_canvasDimensions c) \<le> 1000000000"
    and x: "0 \<le> x" "x \<le> dim_width (cc_pdfDimensions c)"
    and y: "0 \<le> y" "y \<le> dim_height (cc_pdfDimensions c)"
  shows "\<exists>x' y'.
           canvasToPdf_double c (fst (pdfToCanvas_double c (Some x) (Some y)))
                                (snd (pdfToCanvas_double c (Some x) (Some y))) = (Some x', Some y')
           \<and> \<bar>x' - x\<bar> \<le> 1 / 10 ^ 6 \<and> \<bar>y' - y\<bar> \<le> 1 / 10 ^ 6"
proof -
  define PW where "PW = dim_width (cc_pdfDimensions c)"
  define PH where "PH = dim_height (cc_pdfDimensions c)"
  define CW where "CW = dim_width (cc_canvasDimensions c)"
  define CH where "CH = dim_height (cc_canvasDimensions c)"
  note b = pw ph cw ch x y
  note b' = b[folded PW_def PH_def CW_def CH_def]
  have PW: "1 / 1000000000 \<le> PW" "PW \<le> 1000000000" and PH: "1 / 1000000000 \<le> PH" "PH \<le> 1000000000"
    and CW: "1 / 1000000000 \<le> CW" "CW \<le> 1000000000" and CH: "1 / 1000000000 \<le> CH" "CH \<le> 1000000000"
    and X: "0 \<le> x" "x \<le> PW" and Y: "0 \<le> y" "y \<le> PH"
    using b' by simp_all
  define cx where "cx = round_double (x * round_double (CW / PW))"
  define t where "t = round_double (y * round_double (CH / PH))"
  define cy where "cy = round_double (CH - t)"
  define d where "d = round_double (CH - cy)"
  define x' where "x' = round_double (cx * round_double (PW / CW))"
  define y' where "y' = round_double (d * round_double (PH / CH))"
  note fx = first_mul[OF CW PW X]
  note fy = first_mul[OF CH PH Y]
  have wy: "0 \<le> y * (CH / PH)" "y * (CH / PH) \<le> CH"
  proof -
    have P: "0 < PH" and C: "0 < CH" using PH CH by linarith+
    show "0 \<le> y * (CH / PH)" using Y P C by simp
    have "y * (CH / PH) \<le> PH * (CH / PH)" using Y P C by (intro mult_right_mono) simp_all
    then show "y * (CH / PH) \<le> CH" using P by simp
  qed
  note sy = two_sub[OF CH fy(1)[folded t_def] wy]
  have ex: "\<bar>cx - x * (CW / PW)\<bar> \<le> 5 * CW / 8000000000000000"
    using fx(1) CW unfolding cx_def by linarith
  note gx = final_mul[OF CW PW X ex]
  note gy = final_mul[OF CH PH Y sy(1)[folded cy_def d_def]]
  have fwd: "pdfToCanvas_double c (Some x) (Some y) = (Some cx, Some cy)"
  proof -
    have 1: "dmul (Some x) (Some (round_double (CW / PW))) = Some cx"
      unfolding cx_def using fx(2) CW by (intro dmul_Some) linarith
    have 2: "dmul (Some y) (Some (round_double (CH / PH))) = Some t"
      unfolding t_def using fy(2) CH by (intro dmul_Some) linarith
    have 3: "dsub (Some CH) (Some t) = Some cy"
      unfolding cy_def using sy(3) CH by (intro dsub_Some) linarith
    show ?thesis
      unfolding pdfToCanvas_double_def Let_def
      by (simp add: ddiv_Some[OF CW PW] ddiv_Some[OF CH PH] 1 2 3
               flip: PW_def PH_def CW_def CH_def)
  qed
  have bwd: "canvasToPdf_double c (Some cx) (Some cy) = (Some x', Some y')"
  proof -
    have 1: "dmul (Some cx) (Some (round_double (PW / CW))) = Some x'"
      unfolding x'_def using gx(2) PW by (intro dmul_Some) linarith
    have 2: "dsub (Some CH) (Some cy) = Some d"
      unfolding d_def using sy(2)[folded cy_def] CH by (intro dsub_Some) linarith
    have 3: "dmul (Some d) (Some (round_double (PH / CH))) = Some y'"
      unfolding y'_def using gy(2) PH by (intro dmul_Some) linarith
    show ?thesis
      unfolding canvasToPdf_double_def Let_def
      by (simp add: ddiv_Some[OF PW CW] ddiv_Some[OF PH CH] 1 2 3
               flip: PW_def PH_def CW_def CH_def)
  qed
  have "\<bar>x' - x\<bar> \<le> 1 / 10 ^ 6"
    using gx(1) PW unfolding x'_def by simp
  moreover have "\<bar>y' - y\<bar> \<le> 1 / 10 ^ 6"
    using gy(1) PH unfolding y'_def by simp
  ultimately show ?thesis using fwd bwd by simp
qed

theorem roundtrip_double_witness:
  "pdfToCanvas_double letter_converter (Some 100) (Some 200) = (Some (1149816081334379 / 2 ^ 43), Some (6574857410539313 / 2 ^ 43))
   \<and> canvasToPdf_double letter_converter
         (fst (pdfToCanvas_double letter_converter (Some 100) (Some 200)))
         (snd (pdfToCanvas_double letter_converter (Some 100) (Some 200)))
       = (Some 100, Some (7036874417766401 / 2 ^ 45))
   \<and> \<bar>100 - (100::real)\<bar> \<le> 1 / 10 ^ 6 \<and> \<bar>7036874417766401 / 2 ^ 45 - (200::real)\<bar> \<le> 1 / 10 ^ 6"
  using roundtrip_double[of letter_converter 100 200]
  unfolding letter_forward fst_conv snd_conv letter_backward
  by (simp add: letter_converter_def)

text \<open>
  Claim C3 as stated fails for positive dimensions in general: for the document of
  \<open>10 ^ 12\<close> by \<open>10 ^ 12\<close> points on a canvas of 3 by 3 pixels the point \<open>(1, 1)\<close>, which is
  inside the document bounds, comes back as \<open>(1, 4503333333333333 / 2 ^ 52)\<close>, that is
  \<open>y = 0.99994087...\<close>, off by more than \<open>1e-6\<close>.
\<close>

theorem roundtrip_double_counterexample:
  "pdfToCanvas_double huge_converter (Some 1) (Some 1)
     = (Some (7427640235712282 / 2 ^ 91), Some (6755399441048989 / 2 ^ 51))
   \<and> canvasToPdf_double huge_converter (Some (7427640235712282 / 2 ^ 91))
                                       (Some (6755399441048989 / 2 ^ 51))
       = (Some 1, Some (4503333333333333 / 2 ^ 52))
   \<and> \<bar>4503333333333333 / 2 ^ 52 - (1::real)\<bar> > 1 / 10 ^ 6"
proof (intro conjI)
  show "pdfToCanvas_double huge_converter (Some 1) (Some 1)
     = (Some (7427640235712282 / 2 ^ 91), Some (6755399441048989 / 2 ^ 51))"
    unfolding pdfToCanvas_double_def Let_def huge_dims huge_scale huge_fwd_mul huge_fwd_sub ..
  show "canvasToPdf_double huge_converter (Some (7427640235712282 / 2 ^ 91))
                                       (Some (6755399441048989 / 2 ^ 51))
       = (Some 1, Some (4503333333333333 / 2 ^ 52))"
    unfolding canvasToPdf_double_def Let_def huge_dims huge_scale_inv huge_bwd_sub
      huge_bwd_mul_x huge_bwd_mul_y ..
  show "\<bar>4503333333333333 / 2 ^ 52 - (1::real)\<bar> > 1 / 10 ^ 6" by simp
qed

text \<open>
  Claim C10. The generic entry point agrees with the dedicated conversions: equal
  source and target systems return the point unchanged, \<open>pdf \<rightarrow> screen\<close> is
  \<open>canvasToScreen\<close> after \<open>pdfToCanvas\<close> (that is \<open>pdfToScreen\<close>), and \<open>screen \<rightarrow> pdf\<close> is
  \<open>canvasToPdf\<close> after \<open>screenToCanvas\<close> (that is \<open>screenToPdf\<close>).
\<close>

theorem convert_agrees_with_pairwise:
  "convert c x y s s = (x, y)
   \<and> convert c x y Pdf Screen = canvasToScreen c (fst (pdfToCanvas c x y)) (snd (pdfToCanvas c x y))
   \<and> convert c x y Pdf Screen = pdfToScreen c x y
   \<and> convert c x y Screen Pdf = canvasToPdf c (fst (screenToCanvas c x y)) (snd (screenToCanvas c x y))
   \<and> convert c x y Screen Pdf = screenToPdf c x y"
  by (simp add: convert_def pdfToScreen_def screenToPdf_def Let_def)


subsection \<open>Text extraction\<close>

lemma js_trim_examples:
  "js_trim (ti_str label_item) = ''Full Name''"
  "js_trim (ti_str blank_item) = []"
  "js_trim (ti_str nbsp_item) = []"
  by (simp_all add: js_trim_def trimStart_def trimEnd_def space_match_def white_space_def
      label_item_def blank_item_def nbsp_item_def)

text \<open>
  Each of the white space code points is removed at both ends, and a string of two of
  them trims to the empty string; white space inside the text stays.
\<close>

lemma js_trim_each_space:
  "list_all (\<lambda>w. js_trim (w @ ''Full Name'' @ w) = ''Full Name'' \<and> js_trim (w @ w) = []) white_space"
  by (simp add: js_trim_def trimStart_def trimEnd_def space_match_def white_space_def)

lemma js_trim_inner: "js_trim '' a  b '' = ''a  b''"
  by (simp add: js_trim_def trimStart_def trimEnd_def space_match_def white_space_def)

lemma extract_item_shown:
  "extract_item h item acc = acc @ map (canvas_run h) (shown_items [item])"
proof (cases item)
  case MarkedContent
  then show ?thesis by (simp add: extract_item_def)
next
  case (TextContent it)
  then show ?thesis
    by (cases "ti_fontName it")
       (auto simp: extract_item_def canvas_run_def Let_def)
qed

lemma shown_items_Cons: "shown_items (item # items) = shown_items [item] @ shown_items items"
  by (cases item) simp_all

lemma fold_extract_item:
  "fold (extract_item h) items acc = acc @ map (canvas_run h) (shown_items items)"
proof (induction items arbitrary: acc)
  case Nil
  then show ?case by simp
next
  case (Cons item items)
  have "fold (extract_item h) (item # items) acc
      = fold (extract_item h) items (extract_item h item acc)"
    by simp
  also have "\<dots> = (acc @ map (canvas_run h) (shown_items [item]))
                    @ map (canvas_run h) (shown_items items)"
    by (simp only: Cons.IH extract_item_shown)
  also have "\<dots> = acc @ map (canvas_run h) (shown_items (item # items))"
    by (simp add: shown_items_Cons[of item items])
  finally show ?case .
qed

text \<open>
  Claim C2, as amended. For every text item with a non-blank string and transform
  \<open>[a, b, c, d, e, f]\<close> on a page of height \<open>H\<close>, the extractor returns a run at
  \<open>(e, H - f)\<close>, that is in canvas coordinates (origin top-left, Y downward), with font
  size \<open>|d|\<close> and the item's width and height; items without a string and items whose
  string is empty or white space (what \<open>trim()\<close> removes) give no run; the runs are in
  extraction order.
\<close>

theorem extractTextWithPositions_canvas_runs:
  assumes "pdf pageNumber = Some page"
  shows "extractTextWithPositions pdf pageNumber =
           Inr (map (canvas_run (dim_height (pg_viewport page))) (shown_items (pg_items page)))"
  using assms by (simp add: extractTextWithPositions_def fold_extract_item)

theorem extractTextWithPositions_canvas_runs_witness:
  "label_doc 1 = Some \<lparr>pg_viewport = \<lparr>dim_width = 612, dim_height = 792\<rparr>,
                        pg_items = [MarkedContent, TextContent label_item, TextContent blank_item,
                                    TextContent nbsp_item]\<rparr>
   \<and> extractTextWithPositions label_doc 1 = Inr [label_run]"
  using extractTextWithPositions_canvas_runs [of label_doc 1
      "\<lparr>pg_viewport = \<lparr>dim_width = 612, dim_height = 792\<rparr>,
        pg_items = [MarkedContent, TextContent label_item, TextContent blank_item,
                    TextContent nbsp_item]\<rparr>"]
  by (simp add: label_doc_def js_trim_examples canvas_run_def)
     (simp add: label_item_def label_run_def)

text \<open>
  Claim C2 as stated fails: the item drawn at \<open>(40, 700)\<close> on the page of height 792 is
  returned at \<open>(40, 92)\<close>, not at \<open>(e, f) = (40, 700)\<close>.
\<close>

theorem extract_position_counterexample:
  "extractTextWithPositions label_doc 1 = Inr [label_run]
   \<and> (ef_x label_run, ef_y label_run)
       \<noteq> (tr_e (ti_transform label_item), tr_f (ti_transform label_item))"
  by (simp add: extractTextWithPositions_def label_doc_def extract_item_def js_trim_examples
      Let_def)
     (simp add: label_item_def label_run_def)

subsection \<open>Line grouping\<close>

lemma fold_group_inner:
  "distinct js \<Longrightarrow>
   fold (group_inner xs cy d) js (g, P) =
     (g @ map ((!) xs) (filter (\<lambda>i. i \<notin> P \<and> \<bar>ef_y (xs ! i) - cy\<bar> \<le> d) js),
      P \<union> {i \<in> set js. \<bar>ef_y (xs ! i) - cy\<bar> \<le> d})"
proof (induction js arbitrary: g P)
  case Nil
  then show ?case by simp
next
  case (Cons j js)
  have eq: "filter (\<lambda>i. i \<notin> insert j P \<and> \<bar>ef_y (xs ! i) - cy\<bar> \<le> d) js
          = filter (\<lambda>i. i \<notin> P \<and> \<bar>ef_y (xs ! i) - cy\<bar> \<le> d) js"
    using Cons.prems by (intro filter_cong) auto
  show ?case
  proof (cases "j \<in> P")
    case True
    then show ?thesis using Cons by (auto simp: group_inner_def)
  next
    case False
    show ?thesis
    proof (cases "\<bar>ef_y (xs ! j) - cy\<bar> \<le> d")
      case True
      with False Cons eq show ?thesis by (auto simp: group_inner_def Let_def)
    next
      case no: False
      with False Cons show ?thesis by (auto simp: group_inner_def Let_def)
    qed
  qed
qed

lemma fold_group_outer:
  "k \<le> length xs \<Longrightarrow>
   fst (fold (group_outer xs d) [k ..< length xs] (G, P)) = G @ line_groups d (remaining xs k P)"
proof (induction "length xs - k" arbitrary: k G P)
  case 0
  then show ?case by (simp add: remaining_def)
next
  case (Suc m)
  then have klt: "k < length xs" and m: "m = length xs - Suc k" by simp_all
  have upt: "[k ..< length xs] = k # [Suc k ..< length xs]"
    using klt by (simp add: upt_conv_Cons)
  show ?case
  proof (cases "k \<in> P")
    case True
    have "remaining xs k P = remaining xs (Suc k) P"
      using True by (simp add: remaining_def upt)
    moreover have "fst (fold (group_outer xs d) [Suc k ..< length xs] (G, P))
        = G @ line_groups d (remaining xs (Suc k) P)"
      using Suc.hyps(1)[OF m] klt by simp
    ultimately show ?thesis using True by (simp add: upt group_outer_def)
  next
    case False
    let ?item = "xs ! k"
    let ?P' = "P \<union> {i \<in> set [Suc k ..< length xs]. \<bar>ef_y (xs ! i) - ef_y ?item\<bar> \<le> d}"
    let ?g = "?item # filter (y_near d ?item) (remaining xs (Suc k) P)"
    have inner: "fold (group_inner xs (ef_y ?item) d) [Suc k ..< length xs] ([?item], P) = (?g, ?P')"
      by (simp add: fold_group_inner remaining_def filter_map o_def y_near_def)
    obtain mg where mg: "merge_group ?item ?g = Some mg"
      by (simp add: merge_group_def Let_def)
    have rem_k: "remaining xs k P = ?item # remaining xs (Suc k) P"
      using False by (simp add: remaining_def upt)
    have rem': "remaining xs (Suc k) (insert k ?P')
        = filter (\<lambda>r. \<not> y_near d ?item r) (remaining xs (Suc k) P)"
    proof -
      have "filter (\<lambda>i. i \<notin> insert k ?P') [Suc k ..< length xs]
          = filter (\<lambda>i. i \<notin> P \<and> \<not> \<bar>ef_y (xs ! i) - ef_y ?item\<bar> \<le> d) [Suc k ..< length xs]"
        by (rule filter_cong) auto
      then show ?thesis
        by (simp only: remaining_def filter_map o_def y_near_def filter_filter)
    qed
    have step: "group_outer xs d k (G, P) = (G @ [mg], insert k ?P')"
      using False inner mg by (simp add: group_outer_def Let_def)
    have "fst (fold (group_outer xs d) [k ..< length xs] (G, P))
        = fst (fold (group_outer xs d) [Suc k ..< length xs] (G @ [mg], insert k ?P'))"
      unfolding upt fold_simps o_apply step ..
    also have "\<dots> = (G @ [mg]) @ line_groups d (remaining xs (Suc k) (insert k ?P'))"
      using klt by (intro Suc.hyps(1)[OF m]) simp
    also have "\<dots> = G @ line_groups d (remaining xs k P)"
      by (simp only: rem' rem_k line_groups.simps mg option.case append_assoc append_Cons append_Nil)
    finally show ?thesis .
  qed
qed

lemma groupNearbyText_line_groups: "groupNearbyText xs d = line_groups d xs"
  using fold_group_outer[of 0 xs d "[]" "{}"]
  by (simp add: groupNearbyText_def remaining_def map_nth)

lemma fold_add_sum_list: "fold (\<lambda>g sum. sum + f g) xs (a::real) = a + sum_list (map f xs)"
  by (induction xs arbitrary: a) simp_all

lemma merge_group_box:
  "merge_group item (g # gs) =
     Some \<lparr>ef_text = join_sp (map ef_text (g # gs)),
           ef_x = Min (ef_x ` set (g # gs)),
           ef_y = sum_list (map ef_y (g # gs)) / real (length (g # gs)),
           ef_width = Max ((\<lambda>r. ef_x r + ef_width r) ` set (g # gs)) - Min (ef_x ` set (g # gs)),
           ef_height = ef_height item, ef_fontName = ef_fontName item,
           ef_fontSize = ef_fontSize item\<rparr>"
proof -
  have mn: "fold min (map ef_x gs) (ef_x g) = Min (ef_x ` set (g # gs))"
    using Min.set_eq_fold[of "ef_x g" "map ef_x gs"] by simp
  have mx: "fold max (map (\<lambda>r. ef_x r + ef_width r) gs) (ef_x g + ef_width g)
          = Max ((\<lambda>r. ef_x r + ef_width r) ` set (g # gs))"
    using Max.set_eq_fold[of "ef_x g + ef_width g" "map (\<lambda>r. ef_x r + ef_width r) gs"] by simp
  have av: "fold (\<lambda>g sum. sum + ef_y g) (g # gs) 0 = sum_list (map ef_y (g # gs))"
    using fold_add_sum_list[of ef_y "g # gs" 0] by simp
  show ?thesis
    unfolding merge_group_def list.case Let_def mn mx av ..
qed

text \<open>
  Claim C4, as amended. Line grouping takes the first run not yet grouped as the anchor
  of a line and merges into it every later run whose \<open>y\<close> differs from the anchor's \<open>y\<close>
  by at most the tolerance; the other runs are grouped in turn. Within a merged line the
  runs stay in extraction order and their texts are joined with one space; the merged
  box is \<open>(min x, max (x + width) - min x, average y)\<close>, and the height, font name and
  font size are the anchor's.
\<close>

theorem groupNearbyText_anchor_lines:
  "groupNearbyText [] d = []
   \<and> groupNearbyText (item # rest) d =
       \<lparr>ef_text = join_sp (map ef_text (item # filter (\<lambda>r. \<bar>ef_y r - ef_y item\<bar> \<le> d) rest)),
        ef_x = Min (ef_x ` set (item # filter (\<lambda>r. \<bar>ef_y r - ef_y item\<bar> \<le> d) rest)),
        ef_y = sum_list (map ef_y (item # filter (\<lambda>r. \<bar>ef_y r - ef_y item\<bar> \<le> d) rest))
                 / real (length (item # filter (\<lambda>r. \<bar>ef_y r - ef_y item\<bar> \<le> d) rest)),
        ef_width = Max ((\<lambda>r. ef_x r + ef_width r) `
                          set (item # filter (\<lambda>r. \<bar>ef_y r - ef_y item\<bar> \<le> d) rest))
                   - Min (ef_x ` set (item # filter (\<lambda>r. \<bar>ef_y r - ef_y item\<bar> \<le> d) rest)),
        ef_height = ef_height item, ef_fontName = ef_fontName item,
        ef_fontSize = ef_fontSize item\<rparr>
       # groupNearbyText (filter (\<lambda>r. \<not> \<bar>ef_y r - ef_y item\<bar> \<le> d) rest) d"
proof -
  have near: "y_near d item = (\<lambda>r. \<bar>ef_y r - ef_y item\<bar> \<le> d)"
    by (rule ext) (simp add: y_near_def)
  show ?thesis
    unfolding groupNearbyText_line_groups line_groups.simps merge_group_box option.case near
    by (rule conjI) (rule refl)+
qed

text \<open>
  Claim C4 as stated fails: the two runs of one line, extracted right to left, are
  joined in extraction order (not by \<open>x\<close>) and the merged height is the first run's 10,
  not the maximum 14.
\<close>

theorem groupNearbyText_order_counterexample:
  "groupNearbyText [run_doe, run_name] 5 = [run_merged]
   \<and> line_box run_merged \<noteq> spec_merged_line [run_doe, run_name]"
proof -
  have "line_groups 5 [run_doe, run_name] = [run_merged]"
    by (simp add: merge_group_def y_near_def run_doe_def run_name_def run_merged_def)
  moreover have "line_box run_merged \<noteq> spec_merged_line [run_doe, run_name]"
    by (simp add: line_box_def spec_merged_line_def run_doe_def run_name_def run_merged_def)
  ultimately show ?thesis by (simp add: groupNearbyText_line_groups)
qed

subsection \<open>Text wrapping\<close>

lemma split_sp_not_Nil: "split_sp s \<noteq> []"
  by (induction s) (auto split: list.splits)

lemma split_sp_append_space: "split_sp (a @ CHR '' '' # b) = split_sp a @ split_sp b"
proof (induction a)
  case Nil
  then show ?case by simp
next
  case (Cons c a)
  then show ?case
    using split_sp_not_Nil[of a] by (cases "split_sp a") auto
qed

lemma split_sp_no_space: "CHR '' '' \<notin> set w \<Longrightarrow> split_sp w = [w]"
  by (induction w) auto

lemma split_sp_words_no_space: "w \<in> set (split_sp s) \<Longrightarrow> CHR '' '' \<notin> set w"
proof (induction s arbitrary: w)
  case Nil
  then show ?case by simp
next
  case (Cons c s)
  then show ?case
    by (cases "split_sp s") (auto split: if_splits)
qed

lemma join_sp_split_sp: "join_sp (split_sp s) = s"
proof (induction s)
  case Nil
  then show ?case by simp
next
  case (Cons c s)
  then show ?case
    using split_sp_not_Nil[of s]
    by (cases "split_sp s"; cases "tl (split_sp s)") auto
qed

lemma join_sp_snoc: "ws \<noteq> [] \<Longrightarrow> join_sp (ws @ [w]) = join_sp ws @ CHR '' '' # w"
  by (induction ws rule: join_sp.induct) auto

lemma ne_words_append_space: "ne_words (a @ CHR '' '' # b) = ne_words a @ ne_words b"
  by (simp add: ne_words_def split_sp_append_space)

lemma ne_words_Nil: "ne_words [] = []"
  by (simp add: ne_words_def)

lemma ne_words_word: "CHR '' '' \<notin> set w \<Longrightarrow> ne_words w = (if w = [] then [] else [w])"
  by (simp add: ne_words_def split_sp_no_space)

lemma ne_words_join_sp: "ne_words (join_sp ls) = concat (map ne_words ls)"
  by (induction ls rule: join_sp.induct) (simp_all add: ne_words_Nil ne_words_append_space)


lemma wrapText_fold:
  "wrapText (Some ctx) text W fontSize fontFamily
     = wrap_out (fold (wrap_step (ctx fontSize fontFamily) W) (split_sp text) ([], []))"
  by (simp add: wrapText_def wrap_out_def Let_def split: prod.splits)

lemma wrap_step_words:
  assumes "CHR '' '' \<notin> set w"
  shows "concat (map ne_words (wrap_out (wrap_step m W w st)))
           = concat (map ne_words (wrap_out st)) @ ne_words w"
proof (cases st)
  case (Pair ls c)
  show ?thesis
  proof (cases "c = []")
    case True
    then show ?thesis
      using assms Pair by (simp add: wrap_step_def wrap_out_def Let_def ne_words_word)
  next
    case False
    then show ?thesis
      using assms Pair
      by (simp add: wrap_step_def wrap_out_def Let_def ne_words_word ne_words_append_space)
  qed
qed

lemma fold_wrap_step_words:
  "\<forall>w \<in> set ws. CHR '' '' \<notin> set w \<Longrightarrow>
   concat (map ne_words (wrap_out (fold (wrap_step m W) ws st)))
     = concat (map ne_words (wrap_out st)) @ filter (\<lambda>w. w \<noteq> []) ws"
proof (induction ws arbitrary: st)
  case Nil
  then show ?case by simp
next
  case (Cons w ws)
  then have w: "CHR '' '' \<notin> set w" and ws: "\<forall>w \<in> set ws. CHR '' '' \<notin> set w" by simp_all
  have "concat (map ne_words (wrap_out (fold (wrap_step m W) (w # ws) st)))
      = concat (map ne_words (wrap_out (wrap_step m W w st))) @ filter (\<lambda>w. w \<noteq> []) ws"
    using Cons.IH[OF ws] by simp
  also have "\<dots> = concat (map ne_words (wrap_out st)) @ filter (\<lambda>w. w \<noteq> []) (w # ws)"
    using w by (simp add: wrap_step_words ne_words_word)
  finally show ?case .
qed

lemma wrap_step_fits:
  assumes "\<forall>l \<in> set (wrap_out st). m l \<le> W \<or> l \<in> A" and "w \<in> A"
  shows "\<forall>l \<in> set (wrap_out (wrap_step m W w st)). m l \<le> W \<or> l \<in> A"
proof (cases st)
  case (Pair ls c)
  show ?thesis
  proof (cases "c = []")
    case True
    then show ?thesis
      using assms Pair by (simp add: wrap_step_def wrap_out_def)
  next
    case False
    show ?thesis
    proof (cases "m (c @ CHR '' '' # w) > W")
      case True
      then show ?thesis
        using assms Pair False by (simp add: wrap_step_def wrap_out_def)
    next
      case fits: False
      then show ?thesis
        using assms Pair False by (simp add: wrap_step_def wrap_out_def)
    qed
  qed
qed

lemma fold_wrap_step_fits:
  "\<forall>l \<in> set (wrap_out st). m l \<le> W \<or> l \<in> A \<Longrightarrow> set ws \<subseteq> A \<Longrightarrow>
   \<forall>l \<in> set (wrap_out (fold (wrap_step m W) ws st)). m l \<le> W \<or> l \<in> A"
proof (induction ws arbitrary: st)
  case Nil
  then show ?case by simp
next
  case (Cons w ws)
  have "\<forall>l \<in> set (wrap_out (wrap_step m W w st)). m l \<le> W \<or> l \<in> A"
    using Cons.prems by (intro wrap_step_fits) simp_all
  then show ?case using Cons.IH Cons.prems(2) by simp
qed

lemma join_sp_last_append: "join_sp (ls @ [c @ x]) = join_sp (ls @ [c]) @ x"
  by (induction ls rule: join_sp.induct) simp_all

lemma wrap_step_join:
  assumes "w \<noteq> []" and "snd st \<noteq> []"
  shows "join_sp (wrap_out (wrap_step m W w st)) = join_sp (wrap_out st) @ CHR '' '' # w
         \<and> snd (wrap_step m W w st) \<noteq> []"
proof (cases st)
  case (Pair ls c)
  have a: "join_sp (ls @ [c, w]) = join_sp (ls @ [c]) @ CHR '' '' # w"
    using join_sp_snoc[of "ls @ [c]" w] by simp
  have b: "join_sp (ls @ [c @ CHR '' '' # w]) = join_sp (ls @ [c]) @ CHR '' '' # w"
    by (rule join_sp_last_append)
  show ?thesis
    using assms Pair a b by (simp add: wrap_step_def wrap_out_def Let_def)
qed

lemma fold_wrap_step_join:
  "\<forall>w \<in> set ws. w \<noteq> [] \<Longrightarrow> snd st \<noteq> [] \<Longrightarrow>
   join_sp (wrap_out (fold (wrap_step m W) ws st))
     = join_sp (wrap_out st) @ concat (map ((#) CHR '' '') ws)"
proof (induction ws arbitrary: st)
  case Nil
  then show ?case by simp
next
  case (Cons w ws)
  then have w: "w \<noteq> []" and ws: "\<forall>w \<in> set ws. w \<noteq> []" by simp_all
  note step = wrap_step_join[OF w Cons.prems(2), of m W]
  have "join_sp (wrap_out (fold (wrap_step m W) (w # ws) st))
      = join_sp (wrap_out (wrap_step m W w st)) @ concat (map ((#) CHR '' '') ws)"
    using Cons.IH[OF ws, of "wrap_step m W w st"] step by simp
  then show ?case using step by simp
qed

lemma join_sp_Cons: "join_sp (w # ws) = w @ concat (map ((#) CHR '' '') ws)"
  by (induction ws arbitrary: w) simp_all

lemma wrap_join_exact:
  assumes "\<forall>w \<in> set (split_sp text). w \<noteq> []"
  shows "join_sp (wrap_out (fold (wrap_step m W) (split_sp text) ([], []))) = text"
proof -
  obtain w ws where sp: "split_sp text = w # ws"
    using split_sp_not_Nil[of "text"] by (cases "split_sp text") auto
  with assms have w: "w \<noteq> []" and ws: "\<forall>w \<in> set ws. w \<noteq> []" by simp_all
  have first: "wrap_step m W w ([], []) = ([], w)"
    by (simp add: wrap_step_def)
  have "join_sp (wrap_out (fold (wrap_step m W) (w # ws) ([], [])))
      = join_sp (wrap_out ([], w)) @ concat (map ((#) CHR '' '') ws)"
    using fold_wrap_step_join[OF ws, of "([], w)" m W] w by (simp add: first)
  also have "\<dots> = join_sp (w # ws)"
    using w by (simp add: wrap_out_def join_sp_Cons)
  also have "\<dots> = text"
    using join_sp_split_sp[of "text"] by (simp add: sp)
  finally show ?thesis by (simp add: sp)
qed

text \<open>
  Claim C5. With a metrics backend fixed, for every text, width, size and family:
  the lines returned by \<open>wrapText\<close>, joined with single spaces, have the words of the
  text in the same order (and give back the text itself when it has no empty word, that
  is no leading, trailing or doubled space), and every returned line measures at most
  the width unless it is a single word of the text.
\<close>

theorem wrapText_words_and_widths:
  "ne_words (join_sp (wrapText (Some ctx) text W fontSize fontFamily)) = ne_words text
   \<and> ((\<forall>w \<in> set (split_sp text). w \<noteq> []) \<longrightarrow>
        join_sp (wrapText (Some ctx) text W fontSize fontFamily) = text)
   \<and> (\<forall>l \<in> set (wrapText (Some ctx) text W fontSize fontFamily).
        ctx fontSize fontFamily l \<le> W \<or> l \<in> set (split_sp text))"
proof (intro conjI impI)
  have "concat (map ne_words (wrapText (Some ctx) text W fontSize fontFamily))
      = filter (\<lambda>w. w \<noteq> []) (split_sp text)"
    unfolding wrapText_fold
    by (subst fold_wrap_step_words) (auto simp: wrap_out_def dest: split_sp_words_no_space)
  then show "ne_words (join_sp (wrapText (Some ctx) text W fontSize fontFamily)) = ne_words text"
    unfolding ne_words_join_sp by (simp add: ne_words_def)
next
  assume "\<forall>w \<in> set (split_sp text). w \<noteq> []"
  then show "join_sp (wrapText (Some ctx) text W fontSize fontFamily) = text"
    unfolding wrapText_fold by (rule wrap_join_exact)
next
  show "\<forall>l \<in> set (wrapText (Some ctx) text W fontSize fontFamily).
          ctx fontSize fontFamily l \<le> W \<or> l \<in> set (split_sp text)"
    unfolding wrapText_fold
    by (rule fold_wrap_step_fits) (simp_all add: wrap_out_def)
qed

theorem wrapText_words_and_widths_witness:
  "wrapText (Some mono_ctx) ''aa bb cc'' 5 1 ''Courier'' = [''aa bb'', ''cc'']
   \<and> ne_words (join_sp [''aa bb'', ''cc'']) = ne_words ''aa bb cc''
   \<and> join_sp [''aa bb'', ''cc''] = ''aa bb cc''
   \<and> mono_ctx 1 ''Courier'' ''aa bb'' \<le> 5
   \<and> ''cc'' \<in> set (split_sp ''aa bb cc'')"
proof -
  have r: "wrapText (Some mono_ctx) ''aa bb cc'' 5 1 ''Courier'' = [''aa bb'', ''cc'']"
    by (simp add: wrapText_def wrap_step_def mono_ctx_def Let_def)
  show ?thesis
    using wrapText_words_and_widths[of mono_ctx "''aa bb cc''" 5 1 "''Courier''"]
    unfolding r by (simp add: mono_ctx_def)
qed

subsection \<open>Rendering\<close>

lemma render_field_reports:
  assumes "render_field b c w fd n f i (pdf, reports) = (r, pdf', reports')"
  shows "reports' = reports \<or> (r = None \<and> reports' = reports @ [40 + (real i / real n) * 50])"
  using assms
  by (auto simp: render_field_def Let_def split: if_splits prod.splits option.splits)

lemma render_fields_reports:
  "render_fields b c w fd n fs i (pdf, reports) = (r, pdf', reports') \<Longrightarrow> i + length fs \<le> n \<Longrightarrow>
   \<exists>extra. reports' = reports @ extra \<and> sorted extra
         \<and> (\<forall>p \<in> set extra. 40 + (real i / real n) * 50 \<le> p \<and> p < 90)"
proof (induction fs arbitrary: i pdf reports)
  case Nil
  then show ?case by simp
next
  case (Cons f fs)
  obtain r1 pdf1 reports1 where step: "render_field b c w fd n f i (pdf, reports) = (r1, pdf1, reports1)"
    by (cases "render_field b c w fd n f i (pdf, reports)") auto
  have i: "i < n" and rest: "Suc i + length fs \<le> n" using Cons.prems(2) by simp_all
  have lt: "40 + (real i / real n) * 50 < 90"
  proof -
    have "real i / real n < 1" using i by simp
    then have "(real i / real n) * 50 < 1 * 50" by (intro mult_strict_right_mono) simp_all
    then show ?thesis by simp
  qed
  have mono: "40 + (real i / real n) * 50 \<le> 40 + (real (Suc i) / real n) * 50"
  proof -
    have "real i / real n \<le> real (Suc i) / real n" by (intro divide_right_mono) simp_all
    then have "(real i / real n) * 50 \<le> (real (Suc i) / real n) * 50"
      by (intro mult_right_mono) simp_all
    then show ?thesis by simp
  qed
  show ?case
  proof (cases r1)
    case (Some e)
    then have "reports1 = reports" and "reports' = reports1"
      using render_field_reports[OF step] Cons.prems(1) step by auto
    then show ?thesis by simp
  next
    case None
    then have run: "render_fields b c w fd n fs (Suc i) (pdf1, reports1) = (r, pdf', reports')"
      using Cons.prems(1) step by simp
    from Cons.IH[OF run rest] obtain extra where
      ex: "reports' = reports1 @ extra" "sorted extra"
          "\<forall>p \<in> set extra. 40 + (real (Suc i) / real n) * 50 \<le> p \<and> p < 90"
      by blast
    from render_field_reports[OF step] show ?thesis
    proof
      assume "reports1 = reports"
      then show ?thesis using ex mono by (intro exI[of _ extra]) fastforce
    next
      assume "r1 = None \<and> reports1 = reports @ [40 + (real i / real n) * 50]"
      then show ?thesis
        using ex mono lt
        by (intro exI[of _ "(40 + (real i / real n) * 50) # extra"]) fastforce
    qed
  qed
qed

lemma generatePDF_progress_shape:
  "\<exists>extra. sorted extra \<and> (\<forall>p \<in> set extra. 40 \<le> p \<and> p < 90) \<and>
     ((out_progress (generatePDF b t fd opts) = [0] \<and> out_blob (generatePDF b t fd opts) = None)
      \<or> (out_progress (generatePDF b t fd opts) = [0, 20, 40] @ extra
          \<and> out_blob (generatePDF b t fd opts) = None)
      \<or> (out_progress (generatePDF b t fd opts) = [0, 20, 40] @ extra @ [95]
          \<and> out_blob (generatePDF b t fd opts) = None)
      \<or> (out_progress (generatePDF b t fd opts) = [0, 20, 40] @ extra @ [95, 100]
          \<and> out_blob (generatePDF b t fd opts) \<noteq> None))"
proof (cases "b_new b (mm_width t > mm_height t) (mm_width t) (mm_height t)")
  case (Some e)
  then show ?thesis
    by (intro exI[of _ "[]"]) (simp add: generatePDF_def failed_def)
next
  case None
  obtain r pdf reports where loop:
    "render_fields b (template_converter t) (mm_width t) fd (length (t_fields t)) (t_fields t) 0
       (with_background b t opts, [0, 20, 40]) = (r, pdf, reports)"
    by (metis prod_cases3)
  from render_fields_reports[OF loop] obtain extra where
    ex: "reports = [0, 20, 40] @ extra" "sorted extra" "\<forall>p \<in> set extra. 40 \<le> p \<and> p < 90"
    by auto
  show ?thesis
  proof (intro exI[of _ extra] conjI)
    show "sorted extra" by (rule ex(2))
    show "\<forall>p \<in> set extra. 40 \<le> p \<and> p < 90" by (rule ex(3))
    show "(out_progress (generatePDF b t fd opts) = [0] \<and> out_blob (generatePDF b t fd opts) = None)
      \<or> (out_progress (generatePDF b t fd opts) = [0, 20, 40] @ extra
          \<and> out_blob (generatePDF b t fd opts) = None)
      \<or> (out_progress (generatePDF b t fd opts) = [0, 20, 40] @ extra @ [95]
          \<and> out_blob (generatePDF b t fd opts) = None)
      \<or> (out_progress (generatePDF b t fd opts) = [0, 20, 40] @ extra @ [95, 100]
          \<and> out_blob (generatePDF b t fd opts) \<noteq> None)"
      using None loop ex(1)
      by (cases r; cases "b_output b pdf";
          cases "b_image b pdf (if o_format opts = Some FormatPng then ''image/png'' else ''image/jpeg'')
                   ((case o_quality opts of None \<Rightarrow> 95 | Some q \<Rightarrow> q) / 100)")
         (simp_all add: generatePDF_def failed_def Let_def split: option.splits)
  qed
qed


lemmas demo_defs =
  generatePDF_def plain_backend_def demo_template_def demo_data_def no_options_def
  name_field_def agree_field_def mm_width_def mm_height_def with_background_def new_pdf_def
  render_field_def field_calls_def String_def template_converter_def canvasToPdf_def
  failed_def errorMessage_def Let_def px_to_mm_def check_mark_def

lemma demo_plain:
  "out_blob (generatePDF plain_backend demo_template demo_data no_options) \<noteq> None
   \<and> out_progress (generatePDF plain_backend demo_template demo_data no_options)
       = [0, 20, 40, 40, 65, 95, 100]"
  by (simp add: demo_defs)

text \<open>
  Claim C9. For every call of \<open>generatePDF\<close> the values passed to \<open>setProgress\<close>, in
  order, are non-decreasing, start at 0 and lie in \<open>[0, 100]\<close>, and 100 is reported
  exactly when the call returns an artifact: a call that fails or returns \<open>null\<close> never
  reports 100.
\<close>

theorem generatePDF_progress:
  "sorted (out_progress (generatePDF b t fd opts))
   \<and> hd (out_progress (generatePDF b t fd opts)) = 0
   \<and> (\<forall>p \<in> set (out_progress (generatePDF b t fd opts)). 0 \<le> p \<and> p \<le> 100)
   \<and> (100 \<in> set (out_progress (generatePDF b t fd opts))
        \<longleftrightarrow> out_blob (generatePDF b t fd opts) \<noteq> None)"
proof -
  obtain extra where ex: "sorted extra" "\<forall>p \<in> set extra. 40 \<le> p \<and> p < (90::real)"
    and shape:
     "(out_progress (generatePDF b t fd opts) = [0] \<and> out_blob (generatePDF b t fd opts) = None)
      \<or> (out_progress (generatePDF b t fd opts) = [0, 20, 40] @ extra
          \<and> out_blob (generatePDF b t fd opts) = None)
      \<or> (out_progress (generatePDF b t fd opts) = [0, 20, 40] @ extra @ [95]
          \<and> out_blob (generatePDF b t fd opts) = None)
      \<or> (out_progress (generatePDF b t fd opts) = [0, 20, 40] @ extra @ [95, 100]
          \<and> out_blob (generatePDF b t fd opts) \<noteq> None)"
    using generatePDF_progress_shape[of b t fd opts] by blast
  have s1: "sorted ([0, 20, 40] @ extra)"
    using ex by (fastforce simp: sorted_append)
  have s2: "sorted ([0, 20, 40] @ extra @ [95])"
    using ex by (fastforce simp: sorted_append)
  have s3: "sorted ([0, 20, 40] @ extra @ [95, 100])"
    using ex by (fastforce simp: sorted_append)
  have n100: "100 \<notin> set extra" using ex(2) by fastforce
  have rng: "\<forall>p \<in> set extra. 0 \<le> p \<and> p \<le> 100" using ex(2) by fastforce
  from shape show ?thesis
  proof (elim disjE conjE)
    assume "out_progress (generatePDF b t fd opts) = [0]" "out_blob (generatePDF b t fd opts) = None"
    then show ?thesis by simp
  next
    assume "out_progress (generatePDF b t fd opts) = [0, 20, 40] @ extra"
      "out_blob (generatePDF b t fd opts) = None"
    then show ?thesis using s1 n100 rng by simp
  next
    assume "out_progress (generatePDF b t fd opts) = [0, 20, 40] @ extra @ [95]"
      "out_blob (generatePDF b t fd opts) = None"
    then show ?thesis using s2 n100 rng by simp
  next
    assume "out_progress (generatePDF b t fd opts) = [0, 20, 40] @ extra @ [95, 100]"
      "out_blob (generatePDF b t fd opts) \<noteq> None"
    then show ?thesis using s3 n100 rng by simp
  qed
qed

theorem generatePDF_progress_witness:
  "out_progress (generatePDF plain_backend demo_template demo_data no_options)
     = [0, 20, 40, 40, 65, 95, 100]
   \<and> sorted [0, 20, 40, 40, 65, 95, 100 :: real]
   \<and> out_blob (generatePDF plain_backend demo_template demo_data no_options) \<noteq> None"
  using generatePDF_progress[of plain_backend demo_template demo_data no_options] demo_plain
  by simp

lemma render_fields_append:
  "render_fields b c w fd n (xs @ ys) i st =
     (case render_fields b c w fd n xs i st of
        (Some e, st') \<Rightarrow> (Some e, st')
      | (None, st') \<Rightarrow> render_fields b c w fd n ys (i + length xs) st')"
  by (induction xs arbitrary: i st) (auto split: prod.splits option.splits)

lemma run_ops_prefix:
  "run_ops b cs pdf = (r, pdf') \<Longrightarrow>
   \<exists>k \<le> length cs. pdf' = pdf\<lparr>pdf_calls := pdf_calls pdf @ take k cs\<rparr> \<and> (r \<noteq> None \<longrightarrow> k < length cs)"
proof (induction cs arbitrary: pdf)
  case Nil
  then show ?case by simp
next
  case (Cons c cs)
  show ?case
  proof (cases "b_throws b pdf c")
    case (Some e)
    with Cons.prems show ?thesis by (intro exI[of _ 0]) simp
  next
    case None
    with Cons.prems have "run_ops b cs (pdf\<lparr>pdf_calls := pdf_calls pdf @ [c]\<rparr>) = (r, pdf')" by simp
    from Cons.IH[OF this] obtain k where
      k: "k \<le> length cs" "pdf' = pdf\<lparr>pdf_calls := (pdf_calls pdf @ [c]) @ take k cs\<rparr>"
         "r \<noteq> None \<longrightarrow> k < length cs"
      by auto
    then show ?thesis by (intro exI[of _ "Suc k"]) simp
  qed
qed

text \<open>
  Claim C1, as amended. A failure while drawing a field is not caught per field: when a
  jsPDF call of a filled field throws, after the fields before it were rendered, the
  exception reaches the handler of \<open>generatePDF\<close>, which stores the message
  \<open>Failed to generate PDF: ...\<close>, resets \<open>isGenerating\<close> and returns \<open>null\<close>. The document
  is left as it was at the throw (the calls of that field before the failing one are
  its last calls), so no later field is drawn, and no further progress is reported.
\<close>

theorem field_throw_aborts_generatePDF:
  assumes "b_new b (mm_width t > mm_height t) (mm_width t) (mm_height t) = None"
    and "t_fields t = before @ field # after"
    and "render_fields b (template_converter t) (mm_width t) fd (length (t_fields t)) before 0
           (with_background b t opts, [0, 20, 40]) = (None, pdf1, reports1)"
    and "fd (f_id field) = Some v" and "v \<noteq> VNull" and "v \<noteq> VString []"
    and "run_ops b (field_calls b (template_converter t) (mm_width t) field v) pdf1 = (Some e, pdf2)"
  shows "generatePDF b t fd opts =
           \<lparr>out_blob = None, out_progress = reports1,
            out_error = Some (''Failed to generate PDF: '' @ errorMessage e),
            out_isGenerating = False, out_pdf = Some pdf2\<rparr>
         \<and> (\<exists>k < length (field_calls b (template_converter t) (mm_width t) field v).
               pdf_calls pdf2 = pdf_calls pdf1
                  @ take k (field_calls b (template_converter t) (mm_width t) field v))"
proof -
  have step: "render_field b (template_converter t) (mm_width t) fd (length (t_fields t)) field
                (length before) (pdf1, reports1) = (Some e, pdf2, reports1)"
    using assms(4-7) by (simp add: render_field_def)
  have "render_fields b (template_converter t) (mm_width t) fd (length (t_fields t))
          (t_fields t) 0 (with_background b t opts, [0, 20, 40]) = (Some e, pdf2, reports1)"
    unfolding assms(2) render_fields_append
    using assms(3) step by (simp add: assms(2))
  then have "generatePDF b t fd opts =
           \<lparr>out_blob = None, out_progress = reports1,
            out_error = Some (''Failed to generate PDF: '' @ errorMessage e),
            out_isGenerating = False, out_pdf = Some pdf2\<rparr>"
    using assms(1) by (simp add: generatePDF_def failed_def)
  moreover have "\<exists>k < length (field_calls b (template_converter t) (mm_width t) field v).
               pdf_calls pdf2 = pdf_calls pdf1
                  @ take k (field_calls b (template_converter t) (mm_width t) field v)"
    using run_ops_prefix[OF assms(7)] by auto
  ultimately show ?thesis by simp
qed


theorem field_throw_aborts_generatePDF_witness:
  "generatePDF failing_backend demo_template demo_data no_options =
     \<lparr>out_blob = None, out_progress = [0, 20, 40],
      out_error = Some ''Failed to generate PDF: no glyph'',
      out_isGenerating = False,
      out_pdf = Some ((new_pdf demo_template)\<lparr>pdf_calls := font_calls\<rparr>)\<rparr>"
  using field_throw_aborts_generatePDF[where b = failing_backend and t = demo_template
      and before = "[]" and field = name_field and after = "[agree_field]" and fd = demo_data
      and opts = no_options and ?pdf1.0 = "new_pdf demo_template" and ?reports1.0 = "[0, 20, 40]"
      and v = "VString ''Ada''" and e = "Error ''no glyph''"
      and ?pdf2.0 = "(new_pdf demo_template)\<lparr>pdf_calls := font_calls\<rparr>"]
  by (simp add: demo_defs failing_backend_def font_calls_def)

text \<open>
  Claim C1 as stated fails: when drawing the first field throws, the checkbox after it,
  bound to \<open>"1"\<close>, is not drawn (the document holds only the three font calls of the first
  field) and the call returns \<open>null\<close>.
\<close>

theorem field_throw_counterexample:
  "demo_data (f_id agree_field) = Some (VString ''1'')
   \<and> out_blob (generatePDF failing_backend demo_template demo_data no_options) = None
   \<and> out_pdf (generatePDF failing_backend demo_template demo_data no_options)
       = Some ((new_pdf demo_template)\<lparr>pdf_calls := font_calls\<rparr>)"
  by (simp add: demo_defs failing_backend_def font_calls_def)

lemma run_ops_all:
  "run_ops b cs pdf = (None, pdf') \<Longrightarrow> pdf' = pdf\<lparr>pdf_calls := pdf_calls pdf @ cs\<rparr>"
proof (induction cs arbitrary: pdf)
  case Nil
  then show ?case by simp
next
  case (Cons c cs)
  show ?case
  proof (cases "b_throws b pdf c")
    case (Some e)
    with Cons.prems show ?thesis by simp
  next
    case None
    with Cons.prems have "run_ops b cs (pdf\<lparr>pdf_calls := pdf_calls pdf @ [c]\<rparr>) = (None, pdf')" by simp
    from Cons.IH[OF this] show ?thesis by simp
  qed
qed

lemma run_ops_no_throw:
  "\<forall>p c. b_throws b p c = None \<Longrightarrow> fst (run_ops b cs pdf) = None"
  by (induction cs arbitrary: pdf) simp_all

lemma no_draw_before_last:
  assumes "k < length cs" and "filter is_draw (butlast cs) = []"
  shows "filter is_draw (take k cs) = []"
proof -
  have "take k cs = take k (butlast cs)" using assms(1) by (simp add: take_butlast)
  moreover have "set (take k (butlast cs)) \<subseteq> set (butlast cs)" by (rule set_take_subset)
  ultimately show ?thesis using assms(2) by (auto simp: filter_empty_conv)
qed

lemma checkbox_calls:
  assumes "f_type field = Checkbox"
  shows "filter is_draw (field_calls b conv w field v) =
           (if v = VBoolean True \<or> v = VString ''true'' \<or> v = VString ''1''
            then [DrawText check_mark (fst (canvasToPdf conv (f_x field) (f_y field)) * px_to_mm)
                                      (snd (canvasToPdf conv (f_x field) (f_y field)) * px_to_mm) None]
            else [])"
    and "filter is_draw (butlast (field_calls b conv w field v)) = []"
  using assms by (simp_all add: field_calls_def is_draw_def Let_def)

lemma render_checkbox:
  assumes "f_type field = Checkbox" and "fd (f_id field) = Some v" and "v \<noteq> VNull" and "v \<noteq> VString []"
  shows "filter is_draw (pdf_calls (fst (snd (render_field b conv w fd n field i (pdf, reports)))))
           = filter is_draw (pdf_calls pdf)
             @ (if (v = VBoolean True \<or> v = VString ''true'' \<or> v = VString ''1'')
                   \<and> fst (render_field b conv w fd n field i (pdf, reports)) = None
                then [DrawText check_mark (fst (canvasToPdf conv (f_x field) (f_y field)) * px_to_mm)
                                          (snd (canvasToPdf conv (f_x field) (f_y field)) * px_to_mm) None]
                else [])"
    and "(\<forall>p c. b_throws b p c = None) \<longrightarrow> fst (render_field b conv w fd n field i (pdf, reports)) = None"
proof -
  define cs where "cs = field_calls b conv w field v"
  obtain r pdf' where run: "run_ops b cs pdf = (r, pdf')" by (cases "run_ops b cs pdf")
  have R: "fst (render_field b conv w fd n field i (pdf, reports)) = r"
          "fst (snd (render_field b conv w fd n field i (pdf, reports))) = pdf'"
    using assms(2-4) run by (simp_all add: render_field_def cs_def split: option.splits)
  show "(\<forall>p c. b_throws b p c = None) \<longrightarrow> fst (render_field b conv w fd n field i (pdf, reports)) = None"
    using run_ops_no_throw[of b cs pdf] run R by simp
  show "filter is_draw (pdf_calls (fst (snd (render_field b conv w fd n field i (pdf, reports)))))
           = filter is_draw (pdf_calls pdf)
             @ (if (v = VBoolean True \<or> v = VString ''true'' \<or> v = VString ''1'')
                   \<and> fst (render_field b conv w fd n field i (pdf, reports)) = None
                then [DrawText check_mark (fst (canvasToPdf conv (f_x field) (f_y field)) * px_to_mm)
                                          (snd (canvasToPdf conv (f_x field) (f_y field)) * px_to_mm) None]
                else [])"
  proof (cases r)
    case None
    with run have "pdf' = pdf\<lparr>pdf_calls := pdf_calls pdf @ cs\<rparr>" by (intro run_ops_all) simp
    then show ?thesis unfolding R using None checkbox_calls(1)[OF assms(1), of b conv w v]
      by (simp add: cs_def)
  next
    case (Some e)
    from run_ops_prefix[OF run] Some obtain k where
      k: "k < length cs" "pdf' = pdf\<lparr>pdf_calls := pdf_calls pdf @ take k cs\<rparr>" by auto
    have "filter is_draw (take k cs) = []"
      using k(1) checkbox_calls(2)[OF assms(1), of b conv w v] unfolding cs_def
      by (rule no_draw_before_last)
    then show ?thesis unfolding R using Some k(2) by simp
  qed
qed

text \<open>
  Claim C7. For every checkbox field, the document and the bound value \<open>v\<close> (not
  \<open>undefined\<close>, \<open>null\<close> or \<open>''\<close>): after the callback of the field loop has run, the
  \<open>pdf.text\<close> calls of the document are those it had before, followed by the check mark
  at the field's position if \<open>v\<close> is \<open>true\<close>, \<open>"true"\<close> or \<open>"1"\<close> and no jsPDF call threw, and
  by nothing otherwise (for \<open>false\<close> or \<open>"0"\<close>, say); with a backend that throws nothing the
  callback returns normally, so the mark is drawn if and only if the value is one of the
  three. For every field type, a field whose bound value is \<open>undefined\<close>, \<open>null\<close> or the
  empty string is skipped: no call is made on the document, nothing is thrown and
  nothing is reported.
\<close>

theorem checkbox_mark_and_skip:
  "(f_type field = Checkbox \<and> fd (f_id field) = Some v \<and> v \<noteq> VNull \<and> v \<noteq> VString [] \<longrightarrow>
      filter is_draw (pdf_calls (fst (snd (render_field b conv w fd n field i (pdf, reports)))))
        = filter is_draw (pdf_calls pdf)
          @ (if (v = VBoolean True \<or> v = VString ''true'' \<or> v = VString ''1'')
                \<and> fst (render_field b conv w fd n field i (pdf, reports)) = None
             then [DrawText check_mark (fst (canvasToPdf conv (f_x field) (f_y field)) * px_to_mm)
                                       (snd (canvasToPdf conv (f_x field) (f_y field)) * px_to_mm) None]
             else [])
      \<and> ((\<forall>p c. b_throws b p c = None) \<longrightarrow>
            fst (render_field b conv w fd n field i (pdf, reports)) = None))
   \<and> (fd (f_id field) = None \<or> fd (f_id field) = Some VNull \<or> fd (f_id field) = Some (VString [])
        \<longrightarrow> render_field b conv w fd n field i (pdf, reports) = (None, pdf, reports))"
proof (intro conjI impI)
  assume a: "f_type field = Checkbox \<and> fd (f_id field) = Some v \<and> v \<noteq> VNull \<and> v \<noteq> VString []"
  then have 1: "f_type field = Checkbox" and 2: "fd (f_id field) = Some v" and 3: "v \<noteq> VNull"
    and 4: "v \<noteq> VString []" by simp_all
  show "filter is_draw (pdf_calls (fst (snd (render_field b conv w fd n field i (pdf, reports)))))
        = filter is_draw (pdf_calls pdf)
          @ (if (v = VBoolean True \<or> v = VString ''true'' \<or> v = VString ''1'')
                \<and> fst (render_field b conv w fd n field i (pdf, reports)) = None
             then [DrawText check_mark (fst (canvasToPdf conv (f_x field) (f_y field)) * px_to_mm)
                                       (snd (canvasToPdf conv (f_x field) (f_y field)) * px_to_mm) None]
             else [])"
    by (rule render_checkbox(1)[where fd = fd and field = field and v = v, OF 1 2 3 4])
  show "\<forall>p c. b_throws b p c = None \<Longrightarrow> fst (render_field b conv w fd n field i (pdf, reports)) = None"
    using render_checkbox(2)[where fd = fd and field = field and v = v, OF 1 2 3 4] by simp
next
  assume "fd (f_id field) = None \<or> fd (f_id field) = Some VNull \<or> fd (f_id field) = Some (VString [])"
  then show "render_field b conv w fd n field i (pdf, reports) = (None, pdf, reports)"
    by (auto simp: render_field_def)
qed

theorem checkbox_mark_and_skip_witness:
  "render_field plain_backend (template_converter demo_template) 100 (checkbox_data (VString ''1'')) 2
        agree_field 1 (new_pdf demo_template, [0, 20, 40])
     = (None,
        (new_pdf demo_template)\<lparr>pdf_calls := font_calls @
           [SetFontSize 12, DrawText check_mark (264583 / 100000) (264583 / 6250) None]\<rparr>,
        [0, 20, 40, 65])
   \<and> filter is_draw (pdf_calls (fst (snd (render_field plain_backend (template_converter demo_template)
        100 (checkbox_data (VString ''0'')) 2 agree_field 1 (new_pdf demo_template, [0, 20, 40]))))) = []
   \<and> filter is_draw (pdf_calls (fst (snd (render_field plain_backend (template_converter demo_template)
        100 (checkbox_data (VBoolean False)) 2 agree_field 1 (new_pdf demo_template, [0, 20, 40]))))) = []
   \<and> render_field plain_backend (template_converter demo_template) 100 Map.empty 2 agree_field 1
        (new_pdf demo_template, [0, 20, 40]) = (None, new_pdf demo_template, [0, 20, 40])"
  using checkbox_mark_and_skip[of agree_field "checkbox_data (VString ''1'')" "VString ''1''"
          plain_backend "template_converter demo_template" 100 2 1 "new_pdf demo_template" "[0, 20, 40]"]
        checkbox_mark_and_skip[of agree_field "checkbox_data (VString ''0'')" "VString ''0''"
          plain_backend "template_converter demo_template" 100 2 1 "new_pdf demo_template" "[0, 20, 40]"]
        checkbox_mark_and_skip[of agree_field "checkbox_data (VBoolean False)" "VBoolean False"
          plain_backend "template_converter demo_template" 100 2 1 "new_pdf demo_template" "[0, 20, 40]"]
        checkbox_mark_and_skip[of agree_field Map.empty "VNull"
          plain_backend "template_converter demo_template" 100 2 1 "new_pdf demo_template" "[0, 20, 40]"]
  by (simp add: agree_field_def template_converter_def demo_template_def canvasToPdf_def
      px_to_mm_def checkbox_data_def new_pdf_def render_field_def field_calls_def plain_backend_def
      font_calls_def Let_def String_def mm_width_def mm_height_def)

subsection \<open>Template import\<close>

lemma validateTemplate_rejects:
  assumes "(\<exists>k \<in> set requiredFields. member_of doc k = None)
           \<or> (\<exists>dims. member_of doc ''pdfDimensions'' = Some dims
                 \<and> (falsy (member_of dims ''width'') \<or> falsy (member_of dims ''height'')))
           \<or> \<not> isArray (member_of doc ''fields'')"
  shows "validateTemplate doc \<noteq> Inr True"
  using assms
  by (auto simp: validateTemplate_def Let_def read_member_def requiredFields_def
           split: sum.splits option.splits json.splits)

text \<open>
  Claim C6, as amended. Template import rejects, before any state change, every JSON
  document that lacks a required key (\<open>id\<close>, \<open>templateName\<close>, \<open>pdfDimensions\<close>, \<open>fields\<close>),
  whose \<open>pdfDimensions.width\<close> or \<open>pdfDimensions.height\<close> is missing or falsy (\<open>0\<close>, \<open>null\<close>,
  \<open>false\<close>, \<open>''\<close>), or whose \<open>fields\<close> member is not an array: the promise is rejected and
  the active template is left unchanged.
\<close>

theorem import_rejects_invalid:
  assumes "JSON_parse content = Some doc"
    and "(\<exists>k \<in> set requiredFields. member_of doc k = None)
           \<or> (\<exists>dims. member_of doc ''pdfDimensions'' = Some dims
                 \<and> (falsy (member_of dims ''width'') \<or> falsy (member_of dims ''height'')))
           \<or> \<not> isArray (member_of doc ''fields'')"
  shows "(\<exists>msg. importTemplate JSON_parse now (Content content) = Inl msg)
         \<and> app_template (handleImportTemplate JSON_parse now (Some (Content content)) st)
             = app_template st"
proof -
  have "validateTemplate doc \<noteq> Inr True"
    using assms(2) by (rule validateTemplate_rejects)
  then have "\<exists>msg. importTemplate JSON_parse now (Content content) = Inl msg"
    using assms(1) by (auto simp: importTemplate_def split: sum.splits)
  then show ?thesis
    by (auto simp: handleImportTemplate_def)
qed


theorem import_rejects_invalid_witness:
  "importTemplate demo_parse ''2024-01-01'' (Content ''nodims.json'') = Inl ''Invalid template format''
   \<and> app_template (handleImportTemplate demo_parse ''2024-01-01'' (Some (Content ''nodims.json''))
                     empty_app) = app_template empty_app"
proof -
  have p: "demo_parse ''nodims.json'' = Some nodims_doc"
    by (simp add: demo_parse_def)
  have k: "''pdfDimensions'' \<in> set requiredFields \<and> member_of nodims_doc ''pdfDimensions'' = None"
    by (simp add: requiredFields_def member_of_def nodims_doc_def)
  have r: "importTemplate demo_parse ''2024-01-01'' (Content ''nodims.json'')
             = Inl ''Invalid template format''"
    by (simp add: importTemplate_def p validateTemplate_def nodims_doc_def truthy_def
        typeof_object_def requiredFields_def member_of_def)
  show ?thesis
    using import_rejects_invalid[of demo_parse "''nodims.json''" nodims_doc "''2024-01-01''" empty_app]
      p k r by blast
qed

text \<open>
  Claim C6 as stated fails: a document whose width is \<open>-5\<close> passes validation, is
  resolved and becomes the active template.
\<close>

theorem import_negative_dimensions_counterexample:
  "member_of negative_doc ''pdfDimensions''
     = Some (JObject [(''width'', JNumber (- 5)), (''height'', JNumber 100)])
   \<and> importTemplate demo_parse ''2024-01-01'' (Content ''negative.json'') = Inr negative_imported
   \<and> app_template (handleImportTemplate demo_parse ''2024-01-01'' (Some (Content ''negative.json''))
                     empty_app) = Some negative_imported"
  by (simp add: handleImportTemplate_def importTemplate_def demo_parse_def validateTemplate_def
      negative_doc_def negative_imported_def truthy_def typeof_object_def requiredFields_def
      member_of_def read_member_def falsy_def isArray_def empty_app_def)

subsection \<open>Font matching\<close>

lemma folds_asciiD: "folds_ascii toLowerCase \<Longrightarrow> is_ascii s \<Longrightarrow> toLowerCase s = ascii_lowercase s"
  by (simp add: folds_ascii_def)

lemma strip_style_BoldItalic: "strip_style ''Helvetica-BoldItalic'' = ''HelveticaItalic''"
  by (simp add: style_match_def starts_with_ci_def ascii_lowercase_def ascii_lower_def)

lemma strip_style_inner: "strip_style ''Times-Bold-Roman'' = ''Times-Roman''"
  by (simp add: style_match_def starts_with_ci_def ascii_lowercase_def ascii_lower_def)

lemma builtin_keys:
  assumes "folds_ascii toLowerCase"
  shows "map (\<lambda>m. (toLowerCase (fm_pdfFont m), fm_systemFont m)) FONT_MAPPINGS =
           [(''helvetica'', ''Arial''), (''helvetica-bold'', ''Arial''),
            (''times-roman'', ''Times New Roman''), (''times-bold'', ''Times New Roman''),
            (''courier'', ''Courier New''), (''courier-bold'', ''Courier New''),
            (''symbol'', ''Symbol''), (''zapfdingbats'', ''Zapf Dingbats'')]"
  by (simp add: FONT_MAPPINGS_def folds_asciiD[OF assms] is_ascii_def ascii_lowercase_def
      ascii_lower_def)

lemma fontMappings_systemFont:
  "map_option fm_systemFont (fontMappings (newFontMatcher toLowerCase fonts) k) =
     map_of (rev (map (\<lambda>m. (toLowerCase (fm_pdfFont m), fm_systemFont m)) FONT_MAPPINGS)) k"
proof -
  have "map_option f (map_of (map (\<lambda>m. (g m, m)) xs) k) = map_of (map (\<lambda>m. (g m, f m)) xs) k"
    for f :: "FontMapping \<Rightarrow> string" and g :: "FontMapping \<Rightarrow> string" and xs
    by (induction xs) simp_all
  then show ?thesis by (simp add: newFontMatcher_def new_Map_def rev_map)
qed

text \<open>
  Claim C8, where the code departs from it. With an empty registry the name
  \<open>Helvetica-BoldItalic\<close> has the trailing style suffix \<open>-BoldItalic\<close> and the base name
  \<open>Helvetica\<close>, which the builtin table maps to \<open>Arial\<close>; but the replacement removes only
  \<open>-Bold\<close> (the alternative \<open>Bold\<close> is tried before \<open>BoldItalic\<close>), the retry looks up
  \<open>HelveticaItalic\<close>, and the raw name is returned. The name \<open>Times-Bold-Roman\<close> has no
  trailing style suffix and is in neither table, yet it resolves to \<open>Times New Roman\<close>,
  because \<open>-Bold\<close> is removed inside the name. And a registry entry named \<open>HELVETICA\<close>
  captures the request \<open>helvetica\<close>, which is not its exact name.
\<close>

theorem matchFont_BoldItalic_raw:
  assumes "folds_ascii toLowerCase"
  shows "strip_style ''Helvetica-BoldItalic'' = ''HelveticaItalic''
       \<and> matchFont toLowerCase (newFontMatcher toLowerCase []) ''Helvetica-BoldItalic''
           = ''Helvetica-BoldItalic''
       \<and> matchFont toLowerCase (newFontMatcher toLowerCase []) ''Helvetica'' = ''Arial''
       \<and> matchFont toLowerCase (newFontMatcher toLowerCase []) ''Times-Bold-Roman''
           = ''Times New Roman''
       \<and> matchFont toLowerCase (newFontMatcher toLowerCase [shouting_font]) ''helvetica'' = ''MyFont''"
proof -
  note low = folds_asciiD[OF assms]
  have l1: "toLowerCase ''Helvetica-BoldItalic'' = ''helvetica-bolditalic''"
    and l2: "toLowerCase ''HelveticaItalic'' = ''helveticaitalic''"
    and l3: "toLowerCase ''Helvetica'' = ''helvetica''"
    and l4: "toLowerCase ''helvetica'' = ''helvetica''"
    and l5: "toLowerCase ''HELVETICA'' = ''helvetica''"
    and l6: "toLowerCase ''Times-Bold-Roman'' = ''times-bold-roman''"
    and l7: "toLowerCase ''Times-Roman'' = ''times-roman''"
    by (simp_all add: low is_ascii_def ascii_lowercase_def ascii_lower_def)
  have custom: "customFonts (newFontMatcher toLowerCase []) k = None" for k
    by (simp add: newFontMatcher_def new_Map_def)
  have shout: "customFonts (newFontMatcher toLowerCase [shouting_font]) ''helvetica'' = Some shouting_font"
    by (simp add: newFontMatcher_def new_Map_def l5 shouting_font_def)
  have sys: "map_option fm_systemFont (fontMappings (newFontMatcher toLowerCase fonts) ''helvetica-bolditalic'') = None"
    "map_option fm_systemFont (fontMappings (newFontMatcher toLowerCase fonts) ''helveticaitalic'') = None"
    "map_option fm_systemFont (fontMappings (newFontMatcher toLowerCase fonts) ''helvetica'') = Some ''Arial''"
    "map_option fm_systemFont (fontMappings (newFontMatcher toLowerCase fonts) ''times-bold-roman'') = None"
    "map_option fm_systemFont (fontMappings (newFontMatcher toLowerCase fonts) ''times-roman'')
       = Some ''Times New Roman''"
    for fonts
    unfolding fontMappings_systemFont builtin_keys[OF assms] by simp_all
  have "matchFont toLowerCase (newFontMatcher toLowerCase []) ''Helvetica-BoldItalic''
           = ''Helvetica-BoldItalic''"
    unfolding matchFont_def Let_def strip_style_BoldItalic l1 l2 custom
    using sys(1,2)[of "[]"] by simp
  moreover have "matchFont toLowerCase (newFontMatcher toLowerCase []) ''Helvetica'' = ''Arial''"
    using sys(3)[of "[]"]
    by (auto simp: matchFont_def Let_def l3 custom split: option.splits)
  moreover have "matchFont toLowerCase (newFontMatcher toLowerCase []) ''Times-Bold-Roman''
           = ''Times New Roman''"
    unfolding matchFont_def Let_def strip_style_inner l6 l7 custom
    using sys(4,5)[of "[]"] by auto
  moreover have "matchFont toLowerCase (newFontMatcher toLowerCase [shouting_font]) ''helvetica'' = ''MyFont''"
    by (simp add: matchFont_def Let_def l4 shout) (simp add: shouting_font_def)
  ultimately show ?thesis using strip_style_BoldItalic by simp
qed

theorem matchFont_BoldItalic_raw_witness:
  "folds_ascii ascii_lowercase
   \<and> strip_style ''Helvetica-BoldItalic'' = ''HelveticaItalic''
   \<and> matchFont ascii_lowercase (newFontMatcher ascii_lowercase []) ''Helvetica-BoldItalic''
       = ''Helvetica-BoldItalic''
   \<and> matchFont ascii_lowercase (newFontMatcher ascii_lowercase []) ''Helvetica'' = ''Arial''
   \<and> matchFont ascii_lowercase (newFontMatcher ascii_lowercase []) ''Times-Bold-Roman''
       = ''Times New Roman''
   \<and> matchFont ascii_lowercase (newFontMatcher ascii_lowercase [shouting_font]) ''helvetica''
       = ''MyFont''"
  using matchFont_BoldItalic_raw[of ascii_lowercase]
  by (simp add: folds_ascii_def)

end
